theory Spec2Isabelle
  imports Complex_Main "HOL-Library.AList"
begin

section \<open>JavaScript numbers\<close>

text \<open>
  A JavaScript \<^verbatim>\<open>number\<close> is an IEEE 754 binary64 value. The three special values are
  kept apart; a finite double is \<open>Num x\<close> with \<open>x\<close> the real number it denotes. The two
  zeros denote the same real and are one value here; none of the operations below tells
  them apart except division by zero, which the screen never performs.
\<close>

datatype number = Num real | Infinity | NegInfinity | NaN

fun isNaN :: "number \<Rightarrow> bool" where
  "isNaN NaN = True"
| "isNaN _ = False"

fun isFinite :: "number \<Rightarrow> bool" where
  "isFinite (Num _) = True"
| "isFinite _ = False"

fun js_neg :: "number \<Rightarrow> number" where
  "js_neg (Num a) = Num (- a)"
| "js_neg Infinity = NegInfinity"
| "js_neg NegInfinity = Infinity"
| "js_neg NaN = NaN"

text \<open>\<open>2\<^sup>k\<close> for an integer \<open>k\<close>.\<close>

definition pow2 :: "int \<Rightarrow> real" where
  "pow2 k = (if k \<ge> 0 then 2 ^ nat k else 1 / 2 ^ nat (- k))"

text \<open>The binary exponent of a positive real: \<open>2\<^sup>e \<le> y < 2\<^sup>e\<^sup>+\<^sup>1\<close>.\<close>

function expo :: "real \<Rightarrow> int" where
  "expo y =
     (if y \<le> 0 then 0
      else if y \<ge> 2 then expo (y / 2) + 1
      else if y < 1 then expo (y * 2) - 1
      else 0)"
  by pat_completeness auto

termination
proof (relation "measure (\<lambda>y. if y \<ge> 1 then nat \<lfloor>y\<rfloor> else nat \<lfloor>1 / y\<rfloor> + 1)")
  show "wf (measure (\<lambda>y::real. if y \<ge> 1 then nat \<lfloor>y\<rfloor> else nat \<lfloor>1 / y\<rfloor> + 1))"
    by simp
next
  fix y :: real
  assume "\<not> y \<le> 0" and "2 \<le> y"
  then have "\<lfloor>y / 2\<rfloor> < \<lfloor>y\<rfloor>" and "0 < \<lfloor>y\<rfloor>"
    by linarith+
  with \<open>2 \<le> y\<close> show "(y / 2, y) \<in> measure (\<lambda>y. if y \<ge> 1 then nat \<lfloor>y\<rfloor> else nat \<lfloor>1 / y\<rfloor> + 1)"
    by simp
next
  fix y :: real
  assume pos: "\<not> y \<le> 0" and "\<not> 2 \<le> y" and small: "y < 1"
  then have inv: "1 < 1 / y"
    by simp
  show "(y * 2, y) \<in> measure (\<lambda>y. if y \<ge> 1 then nat \<lfloor>y\<rfloor> else nat \<lfloor>1 / y\<rfloor> + 1)"
  proof (cases "y * 2 \<ge> 1")
    case True
    with small have "\<lfloor>y * 2\<rfloor> = 1"
      by linarith
    moreover from inv have "1 \<le> \<lfloor>1 / y\<rfloor>"
      by (simp add: le_floor_iff)
    ultimately show ?thesis
      using True small by simp
  next
    case False
    define z where "z = 1 / y"
    from False pos have "2 < z"
      by (simp add: z_def field_simps)
    then have "nat \<lfloor>z / 2\<rfloor> + 1 < nat \<lfloor>z\<rfloor> + 1"
      by linarith
    moreover have eq: "1 / (y * 2) = z / 2"
      by (simp add: z_def)
    ultimately have "nat \<lfloor>1 / (y * 2)\<rfloor> + 1 < nat \<lfloor>1 / y\<rfloor> + 1"
      by (simp only: eq z_def [symmetric])
    moreover from small have "\<not> y \<ge> 1"
      by simp
    ultimately show ?thesis
      unfolding in_measure using False by (simp only: if_False)
  qed
qed

declare expo.simps [simp del]

text \<open>Rounding a non-negative real to the nearest integer, a tie going to the even one.\<close>

definition roundHalfEven :: "real \<Rightarrow> int" where
  "roundHalfEven q =
     (let f = \<lfloor>q\<rfloor>
      in if q - of_int f < 1 / 2 then f
         else if q - of_int f > 1 / 2 then f + 1
         else if even f then f else f + 1)"

text \<open>
  The spacing of the doubles around a magnitude \<open>y\<close>: 53 significant bits, and the
  spacing \<open>2\<^sup>-\<^sup>1\<^sup>0\<^sup>7\<^sup>4\<close> of the subnormal numbers below \<open>2\<^sup>-\<^sup>1\<^sup>0\<^sup>2\<^sup>2\<close>.
\<close>

definition ulp :: "real \<Rightarrow> real" where
  "ulp y = pow2 (max (expo y) (- 1022) - 52)"

definition roundMagnitude :: "real \<Rightarrow> real" where
  "roundMagnitude y = of_int (roundHalfEven (y / ulp y)) * ulp y"

text \<open>
  The number a real result becomes: the nearest double, a tie going to the one with an
  even significand, and an infinity when that reaches \<open>2\<^sup>1\<^sup>0\<^sup>2\<^sup>4\<close>.
\<close>

definition round64 :: "real \<Rightarrow> number" where
  "round64 x =
     (let m = roundMagnitude \<bar>x\<bar>
      in if m \<ge> 2 ^ 1024 then (if x < 0 then NegInfinity else Infinity)
         else Num (if x < 0 then - m else m))"

text \<open>The reals that are doubles: rounding leaves them as they are.\<close>

definition isDouble :: "real \<Rightarrow> bool" where
  "isDouble x \<longleftrightarrow> round64 x = Num x"

text \<open>\<^verbatim>\<open>a + b\<close> on numbers: the exact sum of two finite numbers, rounded.\<close>

fun js_add :: "number \<Rightarrow> number \<Rightarrow> number" where
  "js_add NaN _ = NaN"
| "js_add _ NaN = NaN"
| "js_add (Num a) (Num b) = round64 (a + b)"
| "js_add Infinity NegInfinity = NaN"
| "js_add NegInfinity Infinity = NaN"
| "js_add Infinity _ = Infinity"
| "js_add _ Infinity = Infinity"
| "js_add NegInfinity _ = NegInfinity"
| "js_add _ NegInfinity = NegInfinity"

text \<open>\<^verbatim>\<open>a - b\<close> on numbers.\<close>

definition js_sub :: "number \<Rightarrow> number \<Rightarrow> number" where
  "js_sub a b = js_add a (js_neg b)"

text \<open>\<^verbatim>\<open>a > b\<close> on numbers: false as soon as one side is NaN.\<close>

fun js_gt :: "number \<Rightarrow> number \<Rightarrow> bool" where
  "js_gt NaN _ = False"
| "js_gt _ NaN = False"
| "js_gt (Num a) (Num b) = (a > b)"
| "js_gt Infinity Infinity = False"
| "js_gt Infinity _ = True"
| "js_gt NegInfinity _ = False"
| "js_gt (Num a) Infinity = False"
| "js_gt (Num a) NegInfinity = True"

text \<open>\<^verbatim>\<open>a < b\<close> and \<^verbatim>\<open>a >= b\<close> on numbers; \<^verbatim>\<open>a >= b\<close> is not the negation of
  \<^verbatim>\<open>a < b\<close> when a NaN is involved.\<close>

definition js_lt :: "number \<Rightarrow> number \<Rightarrow> bool" where
  "js_lt a b = js_gt b a"

definition js_ge :: "number \<Rightarrow> number \<Rightarrow> bool" where
  "js_ge a b = (\<not> isNaN a \<and> \<not> isNaN b \<and> \<not> js_lt a b)"

text \<open>\<^verbatim>\<open>Math.abs\<close>.\<close>

fun Math_abs :: "number \<Rightarrow> number" where
  "Math_abs (Num a) = Num \<bar>a\<bar>"
| "Math_abs Infinity = Infinity"
| "Math_abs NegInfinity = Infinity"
| "Math_abs NaN = NaN"

text \<open>\<^verbatim>\<open>a / b\<close> on numbers: the exact quotient of two finite numbers, rounded; a zero
  divisor is taken as \<^verbatim>\<open>+0\<close>.\<close>

fun js_div :: "number \<Rightarrow> number \<Rightarrow> number" where
  "js_div NaN _ = NaN"
| "js_div _ NaN = NaN"
| "js_div (Num a) (Num b) =
     (if b = 0 then (if a = 0 then NaN else if a > 0 then Infinity else NegInfinity)
      else round64 (a / b))"
| "js_div (Num a) _ = Num 0"
| "js_div Infinity (Num b) = (if b \<ge> 0 then Infinity else NegInfinity)"
| "js_div NegInfinity (Num b) = (if b \<ge> 0 then NegInfinity else Infinity)"
| "js_div _ _ = NaN"

text \<open>
  \<^verbatim>\<open>Math.max(...xs)\<close> and \<^verbatim>\<open>Math.min(...xs)\<close>: the running extreme starts at
  \<^verbatim>\<open>-Infinity\<close> (at \<^verbatim>\<open>+Infinity\<close> for the minimum), and a NaN among the arguments
  makes the result NaN.
\<close>

fun max_loop :: "number \<Rightarrow> number list \<Rightarrow> number" where
  "max_loop highest [] = highest"
| "max_loop highest (x # xs) =
     (if isNaN x then NaN else if js_gt x highest then max_loop x xs else max_loop highest xs)"

definition Math_max :: "number list \<Rightarrow> number" where
  "Math_max xs = max_loop NegInfinity xs"

fun min_loop :: "number \<Rightarrow> number list \<Rightarrow> number" where
  "min_loop lowest [] = lowest"
| "min_loop lowest (x # xs) =
     (if isNaN x then NaN else if js_lt x lowest then min_loop x xs else min_loop lowest xs)"

definition Math_min :: "number list \<Rightarrow> number" where
  "Math_min xs = min_loop Infinity xs"


section \<open>The metric catalog\<close>

text \<open>
  A JavaScript string is a sequence of UTF-16 code units. The keys, names, units and
  colours of the catalog are ASCII literals and are kept as \<^typ>\<open>string\<close>; the icons are
  not ASCII and are kept as their code units.
\<close>

type_synonym code_units = "nat list"

record config =
  key :: string
  name :: string
  unit :: string
  icon :: code_units
  color :: string

definition metricConfigs :: "config list" where
  "metricConfigs =
    [\<lparr>key = ''weight'', name = ''Weight'', unit = ''kg'', icon = [9878, 65039], color = ''#3B82F6''\<rparr>,
     \<lparr>key = ''chest'', name = ''Chest'', unit = ''in'', icon = [55357, 56490], color = ''#10B981''\<rparr>,
     \<lparr>key = ''shoulders'', name = ''Shoulders'', unit = ''in'', icon = [55356, 57291, 65039],
        color = ''#F59E0B''\<rparr>,
     \<lparr>key = ''waist'', name = ''Waist'', unit = ''in'', icon = [55357, 56527], color = ''#EF4444''\<rparr>,
     \<lparr>key = ''thigh'', name = ''Thigh'', unit = ''in'', icon = [55358, 56757], color = ''#8B5CF6''\<rparr>,
     \<lparr>key = ''hip'', name = ''Hip'', unit = ''in'', icon = [55357, 56528], color = ''#EC4899''\<rparr>,
     \<lparr>key = ''bodyFat'', name = ''Body Fat'', unit = ''%'', icon = [55357, 56522], color = ''#06B6D4''\<rparr>,
     \<lparr>key = ''bicep'', name = ''Bicep'', unit = ''in'', icon = [55357, 56490], color = ''#84CC16''\<rparr>,
     \<lparr>key = ''waterIntake'', name = ''Water Intake'', unit = ''L'', icon = [55357, 56487],
        color = ''#0EA5E9''\<rparr>,
     \<lparr>key = ''steps'', name = ''Steps'', unit = ''steps'', icon = [55357, 56419], color = ''#F97316''\<rparr>]"

text \<open>\<^verbatim>\<open>metricConfigs.find(c => c.key === k)\<close>, the only way the screen looks a descriptor up.\<close>

definition findConfig :: "string \<Rightarrow> config option" where
  "findConfig k = find (\<lambda>c. key c = k) metricConfigs"


section \<open>Entries and metrics\<close>

text \<open>
  Modelled from the spec: the types \<^verbatim>\<open>Metric\<close> and \<^verbatim>\<open>MetricData\<close> are imported by the screen
  from the storage module, which is not among the sources. The fields are the ones the
  screen reads (\<^verbatim>\<open>entries\<close>, \<^verbatim>\<open>currentValue\<close>, \<^verbatim>\<open>lastUpdated\<close>; of an entry \<^verbatim>\<open>value\<close>,
  \<^verbatim>\<open>unit\<close>, \<^verbatim>\<open>date\<close>, \<^verbatim>\<open>time\<close>) and the data model of the specification names.
  \<^verbatim>\<open>currentValue\<close> is \<open>None\<close> where the JavaScript value is \<^verbatim>\<open>undefined\<close>.
  \<^verbatim>\<open>MetricData\<close> is an object indexed by metric key: an association list in the order
  of its keys, read with \<^const>\<open>map_of\<close>.
\<close>

record entry =
  entry_value :: number
  entry_unit :: string
  entry_date :: string
  entry_time :: string

record metric =
  entries :: "entry list"
  currentValue :: "number option"
  lastUpdated :: string

type_synonym metricData = "(string \<times> metric) list"

text \<open>\<^verbatim>\<open>Object.values(metrics)\<close>.\<close>

definition Object_values :: "metricData \<Rightarrow> metric list" where
  "Object_values md = map snd md"


section \<open>Trend\<close>

record change =
  change_value :: number
  isPositive :: bool

text \<open>\<^verbatim>\<open>getMetricChange\<close>; \<open>None\<close> is the \<^verbatim>\<open>null\<close> it returns.\<close>

definition getMetricChange :: "metric \<Rightarrow> change option" where
  "getMetricChange m =
    (if length (entries m) < 2 then None
     else
       let latest = entry_value (entries m ! 0);
           previous = entry_value (entries m ! 1);
           chg = js_sub latest previous
       in Some \<lparr>change_value = Math_abs chg, isPositive = js_ge chg (Num 0)\<rparr>)"


section \<open>What the screen shows\<close>

text \<open>
  A piece of text on the screen: a string, or a number that React turns into text.
\<close>

datatype rendered = Text string | NumberText number

text \<open>Truthiness of a number: \<^verbatim>\<open>0\<close> and \<^verbatim>\<open>NaN\<close> are falsy.\<close>

fun truthy :: "number \<Rightarrow> bool" where
  "truthy (Num a) = (a \<noteq> 0)"
| "truthy NaN = False"
| "truthy _ = True"

text \<open>The expression \<^verbatim>\<open>metric?.currentValue || '--'\<close>, on a metric that may be
  \<^verbatim>\<open>undefined\<close>.\<close>

definition currentValueOrDashes :: "metric option \<Rightarrow> rendered" where
  "currentValueOrDashes metric =
    (case (case metric of None \<Rightarrow> None | Some m \<Rightarrow> currentValue m) of
       None \<Rightarrow> Text ''--''
     | Some v \<Rightarrow> if truthy v then NumberText v else Text ''--'')"

text \<open>The value line of \<^verbatim>\<open>renderMetricCard(config)\<close>, with
  \<^verbatim>\<open>metric = metrics[config.key]\<close>.\<close>

definition renderMetricCard_currentValue :: "metricData \<Rightarrow> config \<Rightarrow> rendered" where
  "renderMetricCard_currentValue metrics c = currentValueOrDashes (map_of metrics (key c))"

text \<open>The value in the hint of the add-entry modal,
  \<^verbatim>\<open>metrics[selectedMetric]?.currentValue || '--'\<close>.\<close>

definition inputHint_currentValue :: "metricData \<Rightarrow> string \<Rightarrow> rendered" where
  "inputHint_currentValue metrics selectedMetric =
     currentValueOrDashes (map_of metrics selectedMetric)"

text \<open>The filter of the Overview's Improving card, and the number the card shows.\<close>

definition improving :: "metric \<Rightarrow> bool" where
  "improving m =
    (if length (entries m) < 2 then False
     else js_gt (entry_value (entries m ! 0)) (entry_value (entries m ! 1)))"

definition improvingCount :: "metricData \<Rightarrow> nat" where
  "improvingCount metrics = length (filter improving (Object_values metrics))"

text \<open>The decimal digits of a natural number.\<close>

fun decimalDigits :: "nat \<Rightarrow> string" where
  "decimalDigits n =
     (if n < 10 then [''0123456789'' ! n]
      else decimalDigits (n div 10) @ [''0123456789'' ! (n mod 10)])"

text \<open>
  \<^verbatim>\<open>x.toFixed(1)\<close>. A value that is not finite gives its name. Otherwise the sign is
  split off and, below \<open>10^21\<close>, \<open>n\<close> is the integer with \<open>n / 10\<close> nearest to the
  magnitude (the larger one of two), printed with a point before its last digit.
  From \<open>10^21\<close> on the result is the exponent notation of the number itself.
\<close>

fun toFixed1 :: "number \<Rightarrow> rendered" where
  "toFixed1 NaN = Text ''NaN''"
| "toFixed1 Infinity = Text ''Infinity''"
| "toFixed1 NegInfinity = Text ''-Infinity''"
| "toFixed1 (Num x) =
     (if \<bar>x\<bar> \<ge> 10 ^ 21 then NumberText (Num x)
      else
        let s = (if x < 0 then ''-'' else []);
            n = nat \<lfloor>\<bar>x\<bar> * 10 + 1 / 2\<rfloor>
        in Text (s @ decimalDigits (n div 10) @ ''.'' @ decimalDigits (n mod 10)))"

text \<open>
  The Statistics card of \<^verbatim>\<open>renderMetricDetail\<close>: the four texts it shows for the
  selected metric.
\<close>

record statistics =
  totalEntries :: rendered
  highest :: rendered
  lowest :: rendered
  average :: rendered

definition renderMetricDetail_statistics :: "metric \<Rightarrow> statistics" where
  "renderMetricDetail_statistics m =
    \<lparr>totalEntries = NumberText (Num (real (length (entries m)))),
     highest =
       (if length (entries m) > 0 then toFixed1 (Math_max (map entry_value (entries m)))
        else Text ''--''),
     lowest =
       (if length (entries m) > 0 then toFixed1 (Math_min (map entry_value (entries m)))
        else Text ''--''),
     average =
       (if length (entries m) > 0
        then toFixed1 (js_div (foldl (\<lambda>sum e. js_add sum (entry_value e)) (Num 0) (entries m))
                              (Num (real (length (entries m)))))
        else Text ''--'')\<rparr>"

text \<open>The entries of the chart and of the history list: \<^verbatim>\<open>metric.entries.slice(0, 10)\<close>.\<close>

definition visibleEntries :: "metric \<Rightarrow> entry list" where
  "visibleEntries m = take 10 (entries m)"


section \<open>Saving an entry\<close>

text \<open>The code units of an ASCII literal.\<close>

definition ascii :: "string \<Rightarrow> code_units" where
  "ascii s = map of_char s"

text \<open>
  White space and line terminators of ECMAScript, as code units: TAB, LF, VT, FF, CR,
  space, no-break space, U+1680, U+2000 to U+200A, U+2028, U+2029, U+202F, U+205F,
  U+3000 and U+FEFF.
\<close>

definition isWhiteSpace :: "nat \<Rightarrow> bool" where
  "isWhiteSpace c \<longleftrightarrow>
     c \<in> {9, 10, 11, 12, 13, 32, 160, 5760, 8232, 8233, 8239, 8287, 12288, 65279}
     \<or> (8192 \<le> c \<and> c \<le> 8202)"

text \<open>\<^verbatim>\<open>s.trim()\<close>.\<close>

definition trim :: "code_units \<Rightarrow> code_units" where
  "trim s = rev (dropWhile isWhiteSpace (rev (dropWhile isWhiteSpace s)))"

definition isDigit :: "nat \<Rightarrow> bool" where
  "isDigit c \<longleftrightarrow> 48 \<le> c \<and> c \<le> 57"

text \<open>The number written by a sequence of decimal digits.\<close>

definition digitsValue :: "code_units \<Rightarrow> nat" where
  "digitsValue ds = foldl (\<lambda>acc d. 10 * acc + (d - 48)) 0 ds"

text \<open>
  The exponent written at the start of \<open>r\<close>: \<^verbatim>\<open>e\<close> or \<^verbatim>\<open>E\<close>, an optional sign and at
  least one digit. Anything else is no exponent part, and counts 0.
\<close>

definition exponentPart :: "code_units \<Rightarrow> int" where
  "exponentPart r =
    (case r of
       [] \<Rightarrow> 0
     | c # r1 \<Rightarrow>
         if c = 101 \<or> c = 69 then
           let negative = (take 1 r1 = [45]);
               r2 = (if take 1 r1 = [45] \<or> take 1 r1 = [43] then drop 1 r1 else r1);
               ds = takeWhile isDigit r2
           in if ds = [] then 0
              else if negative then - int (digitsValue ds) else int (digitsValue ds)
         else 0)"

text \<open>\<open>m \<times> 10\<^sup>e\<close>.\<close>

definition scale10 :: "nat \<Rightarrow> int \<Rightarrow> real" where
  "scale10 m e = (if e \<ge> 0 then real m * 10 ^ nat e else real m / 10 ^ nat (- e))"

text \<open>
  The value of the longest prefix of \<open>r\<close> that is an unsigned decimal literal of the
  string grammar: \<^verbatim>\<open>Infinity\<close>, or digits with an optional point and fraction, or a
  point and a fraction, each with an optional exponent part; the decimal value is
  rounded to the nearest double. NaN when no prefix is one.
\<close>

definition unsignedLiteral :: "code_units \<Rightarrow> number" where
  "unsignedLiteral r =
    (if take 8 r = ascii ''Infinity'' then Infinity
     else
       let ip = takeWhile isDigit r;
           r1 = dropWhile isDigit r;
           hasPoint = (take 1 r1 = [46]);
           fp = (if hasPoint then takeWhile isDigit (drop 1 r1) else []);
           r3 = (if hasPoint then dropWhile isDigit (drop 1 r1) else r1)
       in if ip = [] \<and> fp = [] then NaN
          else round64 (scale10 (digitsValue (ip @ fp)) (exponentPart r3 - int (length fp))))"

text \<open>
  \<^verbatim>\<open>parseFloat(s)\<close>: leading white space is skipped, then an optional sign and the
  longest unsigned literal are read; what follows the literal is ignored.
\<close>

definition parseFloat :: "code_units \<Rightarrow> number" where
  "parseFloat s =
    (let t = dropWhile isWhiteSpace s
     in case t of
          [] \<Rightarrow> NaN
        | c # r \<Rightarrow>
            if c = 45 then js_neg (unsignedLiteral r)
            else if c = 43 then unsignedLiteral r
            else unsignedLiteral t)"

text \<open>
  \<^verbatim>\<open>handleSaveEntry\<close>, up to its first effect: an alert (title and message), or the call
  \<^verbatim>\<open>addMetricEntry(selectedMetric, value)\<close>. \<open>selectedMetric\<close> is \<open>None\<close> for \<^verbatim>\<open>null\<close>;
  \<^verbatim>\<open>null\<close> and the empty string are the falsy values of \<^verbatim>\<open>!selectedMetric\<close>, and the
  empty string is the falsy value of \<^verbatim>\<open>!newValue.trim()\<close>.
\<close>

datatype effect = Alert_alert string string | Call_addMetricEntry string number

definition handleSaveEntry :: "string option \<Rightarrow> code_units \<Rightarrow> effect" where
  "handleSaveEntry selectedMetric newValue =
    (case selectedMetric of
       None \<Rightarrow> Alert_alert ''Error'' ''Please enter a valid value''
     | Some k \<Rightarrow>
         if k = [] \<or> trim newValue = [] then Alert_alert ''Error'' ''Please enter a valid value''
         else
           let v = parseFloat newValue
           in if isNaN v then Alert_alert ''Error'' ''Please enter a valid number''
              else Call_addMetricEntry k v)"


section \<open>The metric store\<close>

text \<open>
  Modelled from the spec: the storage module (\<^verbatim>\<open>getMetrics\<close>, \<^verbatim>\<open>getMetric\<close>,
  \<^verbatim>\<open>addMetricEntry\<close>) is imported by the screen and is not among the sources. The four
  failures are those of the specification's error taxonomy.
\<close>

datatype store_error = StorageReadError | StorageWriteError | ValidationError | InvalidValueError

text \<open>
  Modelled from the spec: the persisted state, a single serialized document holding the
  whole \<^verbatim>\<open>MetricData\<close>. It may not exist yet (first use), and it may be unreadable.
\<close>

datatype medium = NoDocument | Document metricData | Corrupt

text \<open>
  Modelled from the spec: \<^verbatim>\<open>loadAll\<close> returns the full snapshot, the empty mapping on
  first use, and fails with \<^verbatim>\<open>StorageReadError\<close> on an unreadable document.
\<close>

definition loadAll :: "medium \<Rightarrow> store_error + metricData" where
  "loadAll st =
    (case st of NoDocument \<Rightarrow> Inr [] | Document md \<Rightarrow> Inr md | Corrupt \<Rightarrow> Inl StorageReadError)"

text \<open>Modelled from the spec: \<^verbatim>\<open>loadOne(key)\<close> is \<^verbatim>\<open>loadAll()[key]\<close>.\<close>

definition loadOne :: "medium \<Rightarrow> string \<Rightarrow> store_error + metric option" where
  "loadOne st k = (case loadAll st of Inl e \<Rightarrow> Inl e | Inr md \<Rightarrow> Inr (map_of md k))"

text \<open>
  Modelled from the spec: the capture moment of an append, as the three texts derived
  from it: the date and the time of the new entry, and the formatted timestamp that
  becomes \<^verbatim>\<open>lastUpdated\<close>. The specification fixes none of the formats.
\<close>

record moment =
  moment_date :: string
  moment_time :: string
  moment_stamp :: string

text \<open>Modelled from the spec: the new entry, its unit copied from the catalog.\<close>

definition newEntry :: "string \<Rightarrow> moment \<Rightarrow> number \<Rightarrow> entry" where
  "newEntry u now v =
    \<lparr>entry_value = v, entry_unit = u, entry_date = moment_date now, entry_time = moment_time now\<rparr>"

text \<open>The entries recorded for a key; none when the key is absent.\<close>

definition entriesOf :: "metricData \<Rightarrow> string \<Rightarrow> entry list" where
  "entriesOf md k = (case map_of md k of None \<Rightarrow> [] | Some m \<Rightarrow> entries m)"

text \<open>
  Modelled from the spec: the metric after an entry is put in front of its entries (the
  record is created by the first entry), \<^verbatim>\<open>currentValue\<close> and \<^verbatim>\<open>lastUpdated\<close> recomputed
  from the new head.
\<close>

definition prepend :: "entry \<Rightarrow> string \<Rightarrow> entry list \<Rightarrow> metric" where
  "prepend e stamp old =
    \<lparr>entries = e # old, currentValue = Some (entry_value e), lastUpdated = stamp\<rparr>"

text \<open>
  Modelled from the spec: \<^verbatim>\<open>appendEntry(key, value)\<close> on the persisted state \<open>st\<close>, at
  the moment \<open>now\<close>; \<open>writable\<close> tells whether the medium accepts the write. The result
  is the failure or the new snapshot, and the persisted state after the call. The key
  is checked against the catalog, then the value for finiteness; then the document is
  read, the entry put in front, and the whole document written back.
\<close>

definition appendEntry ::
  "moment \<Rightarrow> bool \<Rightarrow> string \<Rightarrow> number \<Rightarrow> medium \<Rightarrow> (store_error + metricData) \<times> medium" where
  "appendEntry now writable k v st =
    (case findConfig k of
       None \<Rightarrow> (Inl ValidationError, st)
     | Some c \<Rightarrow>
         if \<not> isFinite v then (Inl InvalidValueError, st)
         else
           (case loadAll st of
              Inl e \<Rightarrow> (Inl e, st)
            | Inr md \<Rightarrow>
                let md' = AList.update k
                            (prepend (newEntry (unit c) now v) (moment_stamp now) (entriesOf md k)) md
                in if writable then (Inr md', Document md') else (Inl StorageWriteError, st)))"

text \<open>
  A sequence of \<^verbatim>\<open>appendEntry\<close> calls, each with its arguments and its circumstances,
  run one after the other on the persisted state; a call that fails is followed by the
  next one.
\<close>

record call =
  call_key :: string
  call_value :: number
  call_moment :: moment
  call_writable :: bool

fun appendAll :: "call list \<Rightarrow> medium \<Rightarrow> medium" where
  "appendAll [] st = st"
| "appendAll (c # cs) st =
     appendAll cs (snd (appendEntry (call_moment c) (call_writable c) (call_key c) (call_value c) st))"

text \<open>The calls that meet the preconditions and whose write goes through, and the entry
  such a call records.\<close>

definition accepted :: "call \<Rightarrow> bool" where
  "accepted c \<longleftrightarrow> findConfig (call_key c) \<noteq> None \<and> isFinite (call_value c) \<and> call_writable c"

definition acceptedFor :: "string \<Rightarrow> call list \<Rightarrow> call list" where
  "acceptedFor k cs = filter (\<lambda>c. call_key c = k \<and> accepted c) cs"

definition entryOf :: "call \<Rightarrow> entry" where
  "entryOf c =
     newEntry (case findConfig (call_key c) of None \<Rightarrow> [] | Some cfg \<Rightarrow> unit cfg)
       (call_moment c) (call_value c)"

text \<open>The running sums \<open>a + v\<^sub>1\<close>, \<open>a + v\<^sub>1 + v\<^sub>2\<close>, ... of a list of reals; used to
  state when a sum of doubles is exact.\<close>

fun partialSums :: "real \<Rightarrow> real list \<Rightarrow> real list" where
  "partialSums a [] = []"
| "partialSums a (v # vs) = (a + v) # partialSums (a + v) vs"

text \<open>A metric whose entries carry the given finite values, newest first; used to
  state examples.\<close>

definition metricOfValues :: "real list \<Rightarrow> metric" where
  "metricOfValues vs =
    \<lparr>entries = map (\<lambda>v. \<lparr>entry_value = Num v, entry_unit = ''kg'', entry_date = ''1/1/2025'',
                          entry_time = ''10:00:00''\<rparr>) vs,
     currentValue = (case vs of [] \<Rightarrow> None | v # _ \<Rightarrow> Some (Num v)),
     lastUpdated = ''1/1/2025 10:00:00''\<rparr>"

text \<open>A capture moment on one sample day, and a call at such a moment whose write goes
  through; used to state examples.\<close>

definition momentAt :: "string \<Rightarrow> moment" where
  "momentAt t = \<lparr>moment_date = ''1/1/2025'', moment_time = t, moment_stamp = ''1/1/2025 '' @ t\<rparr>"

definition callAt :: "string \<Rightarrow> number \<Rightarrow> string \<Rightarrow> call" where
  "callAt k v t = \<lparr>call_key = k, call_value = v, call_moment = momentAt t, call_writable = True\<rparr>"


section \<open>Properties of the catalog\<close>

text \<open>
  C7. The catalog is a fixed ordered sequence of ten descriptors, each with a key, a
  display name, a unit, an icon and a colour, and no key occurs twice. The source binds
  it once (\<^verbatim>\<open>const metricConfigs = [...]\<close>) and only reads it (\<^verbatim>\<open>find\<close>, \<^verbatim>\<open>map\<close>), so it
  is a constant here: listing it takes no argument and no state, cannot fail, and gives
  the same sequence every time.
\<close>

theorem metricConfigs_fixed_unique:
  "map key metricConfigs =
     [''weight'', ''chest'', ''shoulders'', ''waist'', ''thigh'', ''hip'', ''bodyFat'',
      ''bicep'', ''waterIntake'', ''steps'']
   \<and> distinct (map key metricConfigs)
   \<and> map unit metricConfigs =
     [''kg'', ''in'', ''in'', ''in'', ''in'', ''in'', ''%'', ''in'', ''L'', ''steps'']
   \<and> length metricConfigs = 10"
  by (simp add: metricConfigs_def)


section \<open>Properties of rounding\<close>

lemma pow2_powi: "pow2 k = 2 powi k"
  by (simp add: pow2_def power_int_def field_simps)

lemma pow2_add: "pow2 (j + k) = pow2 j * pow2 k"
  by (simp only: pow2_powi) (simp add: power_int_add)

lemma pow2_nonneg_exp: "0 \<le> k \<Longrightarrow> pow2 k = of_int (2 ^ nat k)"
  by (simp add: pow2_def)

lemma pow2_pos: "0 < pow2 k"
  by (simp only: pow2_powi) simp

lemma pow2_add1: "pow2 (k + 1) = 2 * pow2 k"
  using pow2_add [of k 1] by (simp add: pow2_def)

lemma pow2_diff1: "pow2 (k - 1) = pow2 k / 2"
  using pow2_add [of "k - 1" 1] by (simp add: pow2_def)

lemma pow2_mono: "j \<le> k \<Longrightarrow> pow2 j \<le> pow2 k"
  by (simp only: pow2_powi) (simp add: power_int_increasing)

lemma expo_lower: "0 < y \<Longrightarrow> pow2 (expo y) \<le> y"
proof (induction y rule: expo.induct)
  case (1 y)
  show ?case
  proof (cases "2 \<le> y")
    case True
    with "1.prems" "1.IH"(1) have "pow2 (expo (y / 2)) \<le> y / 2"
      by simp
    moreover from True "1.prems" have "expo y = expo (y / 2) + 1"
      by (simp add: expo.simps [of y])
    ultimately show ?thesis
      by (simp add: pow2_add1)
  next
    case False
    show ?thesis
    proof (cases "y < 1")
      case True
      with False "1.prems" "1.IH"(2) have "pow2 (expo (y * 2)) \<le> y * 2"
        by simp
      moreover from True False "1.prems" have "expo y = expo (y * 2) - 1"
        by (simp add: expo.simps [of y])
      ultimately show ?thesis
        by (simp add: pow2_diff1)
    next
      case ge: False
      with False "1.prems" have "expo y = 0"
        by (simp add: expo.simps [of y])
      with ge show ?thesis
        by (simp add: pow2_def)
    qed
  qed
qed

lemma roundHalfEven_ge:
  assumes "of_int k \<le> q"
  shows "k \<le> roundHalfEven q"
proof -
  from assms have "k \<le> \<lfloor>q\<rfloor>"
    by (simp add: le_floor_iff)
  then show ?thesis
    by (simp add: roundHalfEven_def Let_def)
qed

lemma ulp_pos: "0 < ulp y"
  by (simp add: ulp_def pow2_pos)

lemma roundMagnitude_nonneg: "0 \<le> y \<Longrightarrow> 0 \<le> roundMagnitude y"
proof -
  assume "0 \<le> y"
  then have "of_int 0 \<le> y / ulp y"
    using ulp_pos [of y] by simp
  then have "0 \<le> roundHalfEven (y / ulp y)"
    by (rule roundHalfEven_ge)
  then show ?thesis
    using ulp_pos [of y] by (simp add: roundMagnitude_def)
qed

lemma ulp_le: "pow2 (- 1074) \<le> y \<Longrightarrow> ulp y \<le> y"
proof -
  assume y: "pow2 (- 1074) \<le> y"
  then have pos: "0 < y"
    using pow2_pos [of "- 1074"] by linarith
  show ?thesis
  proof (cases "expo y \<le> - 1022")
    case True
    then have "ulp y = pow2 (- 1074)"
      by (simp add: ulp_def max_def)
    with y show ?thesis by simp
  next
    case False
    then have "ulp y = pow2 (expo y - 52)"
      by (simp add: ulp_def max_def)
    also have "\<dots> \<le> pow2 (expo y)"
      by (rule pow2_mono) simp
    also have "\<dots> \<le> y"
      using pos by (rule expo_lower)
    finally show ?thesis .
  qed
qed

lemma roundMagnitude_pos: "pow2 (- 1074) \<le> y \<Longrightarrow> 0 < roundMagnitude y"
proof -
  assume y: "pow2 (- 1074) \<le> y"
  then have "of_int 1 \<le> y / ulp y"
    using ulp_le [OF y] ulp_pos [of y] by simp
  then have "1 \<le> roundHalfEven (y / ulp y)"
    by (rule roundHalfEven_ge)
  then show ?thesis
    using ulp_pos [of y] by (simp add: roundMagnitude_def)
qed

lemma roundMagnitude_0: "roundMagnitude 0 = 0"
  by (simp add: roundMagnitude_def roundHalfEven_def)

lemma round64_0: "round64 0 = Num 0"
  by (simp add: round64_def roundMagnitude_0)

lemma js_ge_round64:
  assumes "x = 0 \<or> pow2 (- 1074) \<le> \<bar>x\<bar>"
  shows "js_ge (round64 x) (Num 0) \<longleftrightarrow> 0 \<le> x"
proof (cases "0 \<le> x")
  case True
  then have "0 \<le> roundMagnitude \<bar>x\<bar>"
    by (simp add: roundMagnitude_nonneg)
  with True show ?thesis
    by (simp add: round64_def Let_def js_ge_def js_lt_def)
next
  case False
  with assms have "0 < roundMagnitude \<bar>x\<bar>"
    by (simp add: roundMagnitude_pos)
  with False show ?thesis
    by (simp add: round64_def Let_def js_ge_def js_lt_def)
qed

lemma Math_abs_round64: "Math_abs (round64 x) = round64 \<bar>x\<bar>"
  using roundMagnitude_nonneg [of "\<bar>x\<bar>"] by (simp add: round64_def Let_def)

lemma roundMagnitude_multiple: "\<exists>j::int. roundMagnitude y = of_int j * pow2 (- 1074)"
proof -
  define k where "k = max (expo y) (- 1022) - 52"
  define n where "n = roundHalfEven (y / ulp y)"
  have k: "0 \<le> k + 1074"
    by (simp add: k_def)
  have "pow2 k = pow2 (k + 1074) * pow2 (- 1074)"
    by (simp add: pow2_add [symmetric])
  also have "pow2 (k + 1074) = of_int (2 ^ nat (k + 1074))"
    using k by (rule pow2_nonneg_exp)
  finally have "of_int n * pow2 k = of_int (n * 2 ^ nat (k + 1074)) * pow2 (- 1074)"
    by (simp only: of_int_mult mult.assoc)
  moreover have "roundMagnitude y = of_int n * pow2 k"
    by (simp add: roundMagnitude_def ulp_def k_def n_def)
  ultimately have "roundMagnitude y = of_int (n * 2 ^ nat (k + 1074)) * pow2 (- 1074)"
    by (simp only:)
  then show ?thesis ..
qed

lemma isDouble_multiple:
  assumes "isDouble x"
  shows "\<exists>j::int. x = of_int j * pow2 (- 1074)"
proof -
  define m where "m = roundMagnitude \<bar>x\<bar>"
  obtain j :: int where j: "m = of_int j * pow2 (- 1074)"
    unfolding m_def using roundMagnitude_multiple by blast
  from assms have x: "x = (if x < 0 then - m else m)"
    by (simp add: isDouble_def round64_def Let_def m_def [symmetric] split: if_splits)
  show ?thesis
  proof (cases "x < 0")
    case True
    with x have "x = of_int (- j) * pow2 (- 1074)"
      by (simp only: j if_True of_int_minus mult_minus_left)
    then show ?thesis ..
  next
    case False
    with x have "x = of_int j * pow2 (- 1074)"
      by (simp only: j if_False)
    then show ?thesis ..
  qed
qed

lemma double_diff:
  assumes "isDouble a" and "isDouble b"
  shows "a - b = 0 \<or> pow2 (- 1074) \<le> \<bar>a - b\<bar>"
proof -
  from assms obtain i j :: int where "a = of_int i * pow2 (- 1074)" "b = of_int j * pow2 (- 1074)"
    using isDouble_multiple by blast
  then have d: "a - b = of_int (i - j) * pow2 (- 1074)"
    by (simp add: algebra_simps)
  show ?thesis
  proof (cases "i = j")
    case True
    with d show ?thesis by simp
  next
    case False
    then have "1 \<le> \<bar>i - j\<bar>"
      by simp
    then have "(1::real) \<le> \<bar>of_int (i - j)\<bar>"
      by (metis of_int_1_le_iff of_int_abs)
    then have "pow2 (- 1074) \<le> \<bar>of_int (i - j)\<bar> * pow2 (- 1074)"
      using pow2_pos [of "- 1074"] by (simp add: mult_le_cancel_right1)
    also have "\<dots> = \<bar>a - b\<bar>"
      using pow2_pos [of "- 1074"] by (simp add: d abs_mult)
    finally show ?thesis ..
  qed
qed

lemma expo_upper: "0 < y \<Longrightarrow> y < pow2 (expo y + 1)"
proof (induction y rule: expo.induct)
  case (1 y)
  show ?case
  proof (cases "2 \<le> y")
    case True
    with "1.prems" "1.IH"(1) have "y / 2 < pow2 (expo (y / 2) + 1)"
      by simp
    then have "y < 2 * pow2 (expo (y / 2) + 1)"
      by simp
    moreover from True "1.prems" have "expo y = expo (y / 2) + 1"
      by (simp add: expo.simps [of y])
    ultimately show ?thesis
      by (simp only: pow2_add1)
  next
    case False
    show ?thesis
    proof (cases "y < 1")
      case True
      with False "1.prems" "1.IH"(2) have "y * 2 < pow2 (expo (y * 2) + 1)"
        by simp
      then have "y < pow2 (expo (y * 2) - 1 + 1)"
        by (simp add: pow2_add1)
      moreover from True False "1.prems" have "expo y = expo (y * 2) - 1"
        by (simp add: expo.simps [of y])
      ultimately show ?thesis
        by (simp only:)
    next
      case ge: False
      with False "1.prems" have "expo y = 0"
        by (simp add: expo.simps [of y])
      with False show ?thesis
        by (simp add: pow2_def)
    qed
  qed
qed

lemma expo_unique:
  assumes "pow2 e \<le> y" and "y < pow2 (e + 1)"
  shows "expo y = e"
proof -
  from assms(1) have pos: "0 < y"
    using pow2_pos [of e] by linarith
  have lo: "pow2 (expo y) \<le> y" and hi: "y < pow2 (expo y + 1)"
    using pos by (rule expo_lower, rule expo_upper)
  have "\<not> e < expo y"
  proof
    assume "e < expo y"
    then have "pow2 (e + 1) \<le> pow2 (expo y)"
      by (intro pow2_mono) simp
    with lo assms(2) show False by linarith
  qed
  moreover have "\<not> expo y < e"
  proof
    assume "expo y < e"
    then have "pow2 (expo y + 1) \<le> pow2 e"
      by (intro pow2_mono) simp
    with hi assms(1) show False by linarith
  qed
  ultimately show ?thesis by linarith
qed

lemma round64_overflow:
  assumes "2 ^ 1024 \<le> \<bar>x\<bar>"
  shows "round64 x = (if x < 0 then NegInfinity else Infinity)"
proof -
  define y where "y = \<bar>x\<bar>"
  have big: "pow2 1024 \<le> y"
    using assms by (simp add: y_def pow2_def)
  then have pos: "0 < y"
    using pow2_pos [of 1024] by linarith
  have e: "1024 \<le> expo y"
  proof (rule ccontr)
    assume "\<not> 1024 \<le> expo y"
    then have "pow2 (expo y + 1) \<le> pow2 1024"
      by (intro pow2_mono) simp
    with expo_upper [OF pos] big show False by linarith
  qed
  then have u: "ulp y = pow2 (expo y - 52)"
    by (simp add: ulp_def max_def)
  have "pow2 (expo y) = pow2 52 * pow2 (expo y - 52)"
    by (simp add: pow2_add [symmetric])
  with expo_lower [OF pos] have "pow2 52 \<le> y / ulp y"
    using ulp_pos [of y] by (simp add: u pos_le_divide_eq)
  then have "of_int (2 ^ 52) \<le> y / ulp y"
    by (simp add: pow2_def)
  then have "2 ^ 52 \<le> roundHalfEven (y / ulp y)"
    by (rule roundHalfEven_ge)
  then have "(2 ^ 52 :: real) \<le> of_int (roundHalfEven (y / ulp y))"
    by (metis of_int_le_iff of_int_numeral of_int_power)
  then have "2 ^ 52 * ulp y \<le> roundMagnitude y"
    using ulp_pos [of y] by (simp add: roundMagnitude_def)
  moreover have "2 ^ 52 * ulp y = pow2 (expo y)"
    using pow2_add [of 52 "expo y - 52"] by (simp add: u pow2_def)
  moreover have "pow2 1024 \<le> pow2 (expo y)"
    using e by (rule pow2_mono)
  ultimately have "2 ^ 1024 \<le> roundMagnitude y"
    by (simp add: pow2_def)
  then show ?thesis
    by (simp add: round64_def Let_def y_def [symmetric])
qed

lemma MAX_double: "isDouble (2 ^ 1024 - 2 ^ 971)"
proof -
  define M :: real where "M = 2 ^ 1024 - 2 ^ 971"
  have e: "expo M = 1023"
    by (rule expo_unique) (simp_all add: M_def pow2_def)
  have u: "ulp M = 2 ^ 971"
    by (simp add: ulp_def e pow2_def)
  have q: "M / 2 ^ 971 = 9007199254740991"
    by (simp add: M_def)
  have r: "roundHalfEven 9007199254740991 = 9007199254740991"
    by (simp add: roundHalfEven_def)
  have "of_int 9007199254740991 * 2 ^ 971 = M"
    by (simp add: M_def)
  then have m: "roundMagnitude M = M"
    by (simp only: roundMagnitude_def u q r)
  have "\<bar>M\<bar> = M" and "\<not> 2 ^ 1024 \<le> M" and "\<not> M < 0"
    by (simp_all add: M_def)
  then have "isDouble M"
    by (simp add: isDouble_def round64_def Let_def m)
  then show ?thesis
    by (simp only: M_def)
qed

lemma round64_underflow:
  assumes "\<bar>x\<bar> < pow2 (- 1075)"
  shows "round64 x = Num 0"
proof -
  define y where "y = \<bar>x\<bar>"
  have y: "0 \<le> y" "y < pow2 (- 1075)"
    using assms by (simp_all add: y_def)
  have "roundMagnitude y = 0"
  proof (cases "y = 0")
    case True
    then show ?thesis
      by (simp add: roundMagnitude_0)
  next
    case False
    with y have pos: "0 < y"
      by simp
    have "expo y \<le> - 1022"
    proof (rule ccontr)
      assume "\<not> expo y \<le> - 1022"
      then have "pow2 (- 1075) \<le> pow2 (expo y)"
        by (intro pow2_mono) simp
      with expo_lower [OF pos] y show False
        by linarith
    qed
    then have u: "ulp y = pow2 (- 1074)"
      by (simp add: ulp_def max_def)
    have two: "pow2 (- 1074) = 2 * pow2 (- 1075)"
      using pow2_add1 [of "- 1075"] by simp
    define q where "q = y / pow2 (- 1074)"
    have "q < 1 / 2"
      using y pow2_pos [of "- 1075"] by (simp add: q_def two field_simps)
    moreover have "0 \<le> q"
      using y pow2_pos [of "- 1074"] by (simp add: q_def)
    ultimately have q: "q < 1 / 2" "0 \<le> q"
      by simp_all
    then have "\<lfloor>q\<rfloor> = 0"
      by (simp add: floor_eq_iff)
    with q have "roundHalfEven q = 0"
      by (simp add: roundHalfEven_def Let_def)
    then show ?thesis
      by (simp only: roundMagnitude_def u q_def [symmetric] of_int_0 mult_zero_left)
  qed
  then show ?thesis
    by (simp add: round64_def Let_def y_def [symmetric])
qed

lemma isDouble_minus: "isDouble x \<Longrightarrow> isDouble (- x)"
  by (auto simp: isDouble_def round64_def Let_def split: if_splits)


section \<open>Properties of the trend\<close>

lemma js_sub_Num: "js_sub (Num a) (Num b) = round64 (a - b)"
  by (simp add: js_sub_def)

lemma js_sub_same: "js_sub (Num a) (Num a) = Num 0"
  by (simp add: js_sub_Num round64_0)

lemma js_ge_Num: "js_ge (Num a) (Num b) = (a \<ge> b)"
  by (auto simp: js_ge_def js_lt_def)

text \<open>
  C2. The trend of a metric is absent when it has fewer than two entries. Otherwise its
  magnitude is the absolute value of \<open>delta = entries[0].value - entries[1].value\<close> and
  it is positive exactly when \<open>delta >= 0\<close>, the subtraction being that of doubles. For
  two finite doubles \<open>a\<close> and \<open>b\<close> the magnitude is the double nearest to \<open>\<bar>a - b\<bar>\<close> (an
  infinity when that overflows) and the trend is positive exactly when \<open>a \<ge> b\<close>; two
  equal values give magnitude 0 and a positive trend.
\<close>

theorem getMetricChange_trend:
  "(length (entries m) < 2 \<longrightarrow> getMetricChange m = None)
   \<and> (\<forall>e0 e1 rest. entries m = e0 # e1 # rest \<longrightarrow>
         getMetricChange m =
           Some \<lparr>change_value = Math_abs (js_sub (entry_value e0) (entry_value e1)),
                 isPositive = js_ge (js_sub (entry_value e0) (entry_value e1)) (Num 0)\<rparr>)
   \<and> (\<forall>e0 e1 rest a b.
         entries m = e0 # e1 # rest \<and> entry_value e0 = Num a \<and> entry_value e1 = Num b
           \<and> isDouble a \<and> isDouble b \<longrightarrow>
         getMetricChange m = Some \<lparr>change_value = round64 \<bar>a - b\<bar>, isPositive = (a \<ge> b)\<rparr>)
   \<and> (\<forall>e0 e1 rest a.
         entries m = e0 # e1 # rest \<and> entry_value e0 = Num a \<and> entry_value e1 = Num a \<longrightarrow>
         getMetricChange m = Some \<lparr>change_value = Num 0, isPositive = True\<rparr>)"
proof (intro conjI allI impI)
  assume "length (entries m) < 2"
  then show "getMetricChange m = None"
    by (simp add: getMetricChange_def)
next
  fix e0 e1 rest
  assume "entries m = e0 # e1 # rest"
  then show "getMetricChange m =
      Some \<lparr>change_value = Math_abs (js_sub (entry_value e0) (entry_value e1)),
            isPositive = js_ge (js_sub (entry_value e0) (entry_value e1)) (Num 0)\<rparr>"
    by (simp add: getMetricChange_def Let_def)
next
  fix e0 e1 rest a b
  assume h: "entries m = e0 # e1 # rest \<and> entry_value e0 = Num a \<and> entry_value e1 = Num b
      \<and> isDouble a \<and> isDouble b"
  then have "isDouble a" and "isDouble b"
    by simp_all
  then have "a - b = 0 \<or> pow2 (- 1074) \<le> \<bar>a - b\<bar>"
    by (rule double_diff)
  then have "js_ge (round64 (a - b)) (Num 0) \<longleftrightarrow> 0 \<le> a - b"
    by (rule js_ge_round64)
  then have "js_ge (round64 (a - b)) (Num 0) \<longleftrightarrow> b \<le> a"
    by simp
  with h show "getMetricChange m = Some \<lparr>change_value = round64 \<bar>a - b\<bar>, isPositive = (a \<ge> b)\<rparr>"
    by (simp add: getMetricChange_def Let_def js_sub_Num Math_abs_round64)
next
  fix e0 e1 rest a
  assume "entries m = e0 # e1 # rest \<and> entry_value e0 = Num a \<and> entry_value e1 = Num a"
  then show "getMetricChange m = Some \<lparr>change_value = Num 0, isPositive = True\<rparr>"
    by (simp add: getMetricChange_def Let_def js_sub_same js_ge_Num)
qed

theorem getMetricChange_trend_witness:
  "getMetricChange (metricOfValues [10, 8]) = Some \<lparr>change_value = Num 2, isPositive = True\<rparr>
   \<and> getMetricChange (metricOfValues [8, 10]) = Some \<lparr>change_value = Num 2, isPositive = False\<rparr>
   \<and> getMetricChange (metricOfValues [5, 5]) = Some \<lparr>change_value = Num 0, isPositive = True\<rparr>
   \<and> getMetricChange (metricOfValues [5]) = None
   \<and> getMetricChange (metricOfValues []) = None
   \<and> isDouble (2476979795053773 / 2251799813685248)
   \<and> isDouble (3602879701896397 / 18014398509481984)
   \<and> getMetricChange (metricOfValues [2476979795053773 / 2251799813685248,
                                        3602879701896397 / 18014398509481984])
       = Some \<lparr>change_value = Num (4053239664633447 / 4503599627370496), isPositive = True\<rparr>
   \<and> getMetricChange (metricOfValues [2 ^ 1024 - 2 ^ 971, - (2 ^ 1024 - 2 ^ 971)])
       = Some \<lparr>change_value = Infinity, isPositive = True\<rparr>"
proof -
  note rd = round64_def roundMagnitude_def ulp_def roundHalfEven_def pow2_def expo.simps Let_def
  let ?e = "\<lambda>v. \<lparr>entry_value = Num v, entry_unit = ''kg'', entry_date = ''1/1/2025'',
                  entry_time = ''10:00:00''\<rparr>"
  have es: "entries (metricOfValues [x, y]) = ?e x # ?e y # []" for x y
    by (simp add: metricOfValues_def)
  have d10: "isDouble 10" and d8: "isDouble 8"
    by (simp_all add: isDouble_def rd)
  have r2: "round64 2 = Num 2"
    by (simp add: rd)
  have a: "getMetricChange (metricOfValues [10, 8]) = Some \<lparr>change_value = Num 2, isPositive = True\<rparr>"
    using getMetricChange_trend [of "metricOfValues [10, 8]", THEN conjunct2, THEN conjunct2,
        THEN conjunct1, rule_format, of "?e 10" "?e 8" "[]" 10 8] es d10 d8 r2
    by simp
  have b: "getMetricChange (metricOfValues [8, 10]) = Some \<lparr>change_value = Num 2, isPositive = False\<rparr>"
    using getMetricChange_trend [of "metricOfValues [8, 10]", THEN conjunct2, THEN conjunct2,
        THEN conjunct1, rule_format, of "?e 8" "?e 10" "[]" 8 10] es d10 d8 r2
    by simp
  have c: "getMetricChange (metricOfValues [5, 5]) = Some \<lparr>change_value = Num 0, isPositive = True\<rparr>"
    using getMetricChange_trend [of "metricOfValues [5, 5]", THEN conjunct2, THEN conjunct2,
        THEN conjunct2, rule_format, of "?e 5" "?e 5" "[]" 5] es
    by simp
  have d: "getMetricChange (metricOfValues [5]) = None" "getMetricChange (metricOfValues []) = None"
    using getMetricChange_trend [of "metricOfValues [5]", THEN conjunct1]
      getMetricChange_trend [of "metricOfValues []", THEN conjunct1]
    by (simp_all add: metricOfValues_def)
  let ?x = "2476979795053773 / 2251799813685248 :: real"
  let ?y = "3602879701896397 / 18014398509481984 :: real"
  have dx: "isDouble ?x" and dy: "isDouble ?y"
    by (simp_all add: isDouble_def rd)
  have rxy: "round64 \<bar>?x - ?y\<bar> = Num (4053239664633447 / 4503599627370496)"
    by (simp add: rd)
  have e: "getMetricChange (metricOfValues [?x, ?y])
       = Some \<lparr>change_value = Num (4053239664633447 / 4503599627370496), isPositive = True\<rparr>"
    using getMetricChange_trend [of "metricOfValues [?x, ?y]", THEN conjunct2, THEN conjunct2,
        THEN conjunct1, rule_format, of "?e ?x" "?e ?y" "[]" ?x ?y] es dx dy
    by (simp only: rxy entry.simps) simp
  define M :: real where "M = 2 ^ 1024 - 2 ^ 971"
  have dM: "isDouble M" "isDouble (- M)"
    unfolding M_def by (rule MAX_double, rule isDouble_minus, rule MAX_double)
  have "2 ^ 1024 \<le> \<bar>\<bar>M - - M\<bar>\<bar>" and "- M \<le> M"
    by (simp_all add: M_def)
  then have oM: "round64 \<bar>M - - M\<bar> = Infinity" "- M \<le> M"
    by (simp_all add: round64_overflow)
  have "getMetricChange (metricOfValues [M, - M])
       = Some \<lparr>change_value = Infinity, isPositive = True\<rparr>"
    using getMetricChange_trend [of "metricOfValues [M, - M]", THEN conjunct2, THEN conjunct2,
        THEN conjunct1, rule_format, of "?e M" "?e (- M)" "[]" M "- M"] es dM
    by (simp only: oM entry.simps)
  then have f: "getMetricChange (metricOfValues [2 ^ 1024 - 2 ^ 971, - (2 ^ 1024 - 2 ^ 971)])
       = Some \<lparr>change_value = Infinity, isPositive = True\<rparr>"
    by (simp only: M_def)
  from a b c d dx dy e f show ?thesis
    by (simp only: simp_thms)
qed


section \<open>Properties of the display of the current value\<close>

text \<open>
  C8. When the current value of a metric is the number 0, the metric card and the hint
  of the add-entry modal show the placeholder \<^verbatim>\<open>--\<close>, not the number: exactly what they
  show for a metric that is not in the data at all.
\<close>

theorem zero_currentValue_shown_as_dashes:
  assumes "map_of metrics (key c) = Some m" and "currentValue m = Some (Num 0)"
  shows "renderMetricCard_currentValue metrics c = Text ''--''
     \<and> inputHint_currentValue metrics (key c) = Text ''--''
     \<and> renderMetricCard_currentValue metrics c = renderMetricCard_currentValue [] c
     \<and> inputHint_currentValue metrics (key c) = inputHint_currentValue [] (key c)"
  using assms
  by (simp add: renderMetricCard_currentValue_def inputHint_currentValue_def
      currentValueOrDashes_def)

theorem zero_currentValue_shown_as_dashes_witness:
  "map_of [(''steps'', metricOfValues [0, 4000])] (key (metricConfigs ! 9))
      = Some (metricOfValues [0, 4000])
   \<and> currentValue (metricOfValues [0, 4000]) = Some (Num 0)
   \<and> renderMetricCard_currentValue [(''steps'', metricOfValues [0, 4000])] (metricConfigs ! 9)
      = Text ''--''
   \<and> inputHint_currentValue [(''steps'', metricOfValues [0, 4000])] ''steps'' = Text ''--''"
proof -
  have k: "key (metricConfigs ! 9) = ''steps''"
    by (simp add: metricConfigs_def)
  have h1: "map_of [(''steps'', metricOfValues [0, 4000])] (key (metricConfigs ! 9))
      = Some (metricOfValues [0, 4000])"
    by (simp add: k)
  have h2: "currentValue (metricOfValues [0, 4000]) = Some (Num 0)"
    by (simp add: metricOfValues_def)
  from zero_currentValue_shown_as_dashes [OF h1 h2] h1 h2 k show ?thesis
    by simp
qed


section \<open>Properties of the Improving count\<close>

lemma count_filter_values:
  "distinct (map fst al) \<Longrightarrow>
   length (filter P (map snd al)) = card {k. \<exists>v. map_of al k = Some v \<and> P v}"
proof (induction al)
  case Nil
  then show ?case by simp
next
  case (Cons p al)
  obtain k v where p: "p = (k, v)" by (cases p)
  from Cons.prems p have notin: "k \<notin> fst ` set al" and dist: "distinct (map fst al)"
    by auto
  let ?S = "{k'. \<exists>v'. map_of al k' = Some v' \<and> P v'}"
  have fin: "finite ?S"
    by (rule finite_subset [of _ "dom (map_of al)"]) (auto simp: finite_dom_map_of)
  have "map_of al k = None"
    using notin by (simp add: map_of_eq_None_iff)
  then have kS: "k \<notin> ?S"
    by simp
  have set_eq: "{k'. \<exists>v'. map_of (p # al) k' = Some v' \<and> P v'} = (if P v then insert k ?S else ?S)"
    using kS by (auto simp: p)
  have "length (filter P (map snd (p # al)))
        = (if P v then 1 else 0) + length (filter P (map snd al))"
    by (simp add: p)
  also have "\<dots> = (if P v then 1 else 0) + card ?S"
    by (simp only: Cons.IH [OF dist])
  also have "\<dots> = card (if P v then insert k ?S else ?S)"
    using fin kS by simp
  finally show ?case
    by (simp only: set_eq)
qed

lemma improving_iff:
  "improving m \<longleftrightarrow>
     2 \<le> length (entries m) \<and> js_gt (entry_value (entries m ! 0)) (entry_value (entries m ! 1))"
  by (auto simp: improving_def)

text \<open>
  C9. The number on the Improving card is the number of metric keys whose metric has at
  least two entries with the newest value strictly greater than the one before. A metric
  whose two newest values are equal (and finite) is not counted, although its trend is
  reported as positive.
\<close>

theorem improvingCount_strict:
  "(distinct (map fst metrics) \<longrightarrow>
      improvingCount metrics =
        card {k. \<exists>m. map_of metrics k = Some m \<and> 2 \<le> length (entries m)
                   \<and> js_gt (entry_value (entries m ! 0)) (entry_value (entries m ! 1))})
   \<and> (\<forall>m e0 e1 rest a b.
        entries m = e0 # e1 # rest \<and> entry_value e0 = Num a \<and> entry_value e1 = Num b \<longrightarrow>
        improving m = (a > b))
   \<and> (\<forall>m e0 e1 rest a.
        entries m = e0 # e1 # rest \<and> entry_value e0 = Num a \<and> entry_value e1 = Num a \<longrightarrow>
        \<not> improving m \<and> improvingCount [(k, m)] = 0
        \<and> map_option isPositive (getMetricChange m) = Some True)"
proof -
  have count: "improvingCount metrics =
      card {k. \<exists>m. map_of metrics k = Some m \<and> 2 \<le> length (entries m)
                 \<and> js_gt (entry_value (entries m ! 0)) (entry_value (entries m ! 1))}"
    if "distinct (map fst metrics)"
  proof -
    have "{k. \<exists>m. map_of metrics k = Some m \<and> improving m} =
          {k. \<exists>m. map_of metrics k = Some m \<and> 2 \<le> length (entries m)
                 \<and> js_gt (entry_value (entries m ! 0)) (entry_value (entries m ! 1))}"
      by (simp only: improving_iff)
    then show ?thesis
      using count_filter_values [OF that, of improving]
      by (simp only: improvingCount_def Object_values_def)
  qed
  have tie: "map_option isPositive (getMetricChange m) = Some True"
    if "entries m = e0 # e1 # rest" "entry_value e0 = Num a" "entry_value e1 = Num a"
    for m e0 e1 rest a
    using that by (simp add: getMetricChange_def Let_def js_sub_same js_ge_Num)
  show ?thesis
    using count tie by (simp add: improving_def improvingCount_def Object_values_def)
qed

theorem improvingCount_strict_witness:
  "distinct (map fst [(''weight'', metricOfValues [71, 70]), (''waist'', metricOfValues [32, 32]),
                      (''steps'', metricOfValues [4000])])
   \<and> improvingCount [(''weight'', metricOfValues [71, 70]), (''waist'', metricOfValues [32, 32]),
                      (''steps'', metricOfValues [4000])] = 1
   \<and> \<not> improving (metricOfValues [32, 32])
   \<and> map_option isPositive (getMetricChange (metricOfValues [32, 32])) = Some True
   \<and> improving (metricOfValues [71, 70])"
proof -
  let ?md = "[(''weight'', metricOfValues [71, 70]), (''waist'', metricOfValues [32, 32]),
              (''steps'', metricOfValues [4000])]"
  have d: "distinct (map fst ?md)" by simp
  have S: "{k. \<exists>m. map_of ?md k = Some m \<and> 2 \<le> length (entries m)
                 \<and> js_gt (entry_value (entries m ! 0)) (entry_value (entries m ! 1))}
           = {''weight''}"
    by (auto simp: metricOfValues_def split: if_splits)
  have c: "improvingCount ?md = 1"
    using improvingCount_strict [of ?md] d by (simp only: S) simp
  let ?e = "\<lambda>v. \<lparr>entry_value = Num v, entry_unit = ''kg'', entry_date = ''1/1/2025'',
                  entry_time = ''10:00:00''\<rparr>"
  have t: "\<not> improving (metricOfValues [32, 32])
      \<and> map_option isPositive (getMetricChange (metricOfValues [32, 32])) = Some True"
    using improvingCount_strict [of ?md, THEN conjunct2, THEN conjunct2, rule_format,
        of "metricOfValues [32, 32]" "?e 32" "?e 32" "[]" 32]
    by (simp add: metricOfValues_def)
  have i: "improving (metricOfValues [71, 70])"
    using improvingCount_strict [of ?md, THEN conjunct2, THEN conjunct1, rule_format,
        of "metricOfValues [71, 70]" "?e 71" "?e 70" "[]" 71 70]
    by (simp add: metricOfValues_def)
  from d c t i show ?thesis by simp
qed


section \<open>Properties of the statistics\<close>

lemma max_loop_Num: "max_loop (Num h) (map Num xs) = Num (fold max xs h)"
proof (induction xs arbitrary: h)
  case Nil
  then show ?case by simp
next
  case (Cons x xs)
  show ?case
  proof (cases "x > h")
    case True
    then have "max x h = x" by simp
    with True Cons.IH [of x] show ?thesis by simp
  next
    case False
    then have "max x h = h" by simp
    with False Cons.IH [of h] show ?thesis by simp
  qed
qed

lemma min_loop_Num: "min_loop (Num l) (map Num xs) = Num (fold min xs l)"
proof (induction xs arbitrary: l)
  case Nil
  then show ?case by simp
next
  case (Cons x xs)
  show ?case
  proof (cases "x < l")
    case True
    then have "min x l = x" by simp
    with True Cons.IH [of x] show ?thesis by (simp add: js_lt_def)
  next
    case False
    then have "min x l = l" by simp
    with False Cons.IH [of l] show ?thesis by (simp add: js_lt_def)
  qed
qed

lemma Math_max_Num:
  assumes "xs \<noteq> []"
  shows "Math_max (map Num xs) = Num (Max (set xs))"
proof -
  from assms obtain x xs' where xs: "xs = x # xs'"
    by (cases xs) auto
  have "Math_max (map Num xs) = Num (fold max xs' x)"
    by (simp add: xs Math_max_def max_loop_Num)
  also have "fold max xs' x = Max (set (x # xs'))"
    by (rule Max.set_eq_fold [symmetric])
  finally show ?thesis
    by (simp only: xs)
qed

lemma Math_min_Num:
  assumes "xs \<noteq> []"
  shows "Math_min (map Num xs) = Num (Min (set xs))"
proof -
  from assms obtain x xs' where xs: "xs = x # xs'"
    by (cases xs) auto
  have "Math_min (map Num xs) = Num (fold min xs' x)"
    by (simp add: xs Math_min_def js_lt_def min_loop_Num)
  also have "fold min xs' x = Min (set (x # xs'))"
    by (rule Min.set_eq_fold [symmetric])
  finally show ?thesis
    by (simp only: xs)
qed

lemma reduce_as_foldl:
  "foldl (\<lambda>sum e. js_add sum (entry_value e)) a es = foldl js_add a (map entry_value es)"
  by (simp add: foldl_map)

lemma foldl_js_add_exact:
  "list_all isDouble (partialSums a vs) \<Longrightarrow> foldl js_add (Num a) (map Num vs) = Num (a + sum_list vs)"
proof (induction vs arbitrary: a)
  case Nil
  then show ?case by simp
next
  case (Cons v vs)
  then have "isDouble (a + v)" and rest: "list_all isDouble (partialSums (a + v) vs)"
    by simp_all
  then have "round64 (a + v) = Num (a + v)"
    by (simp add: isDouble_def)
  with Cons.IH [OF rest] show ?case
    by (simp add: add.assoc)
qed

text \<open>
  C3. For a metric with at least one entry, all values finite, the Statistics card
  shows the number of all entries, the greatest and the least of all values, and the
  average: the values added up from the first entry to the last and the sum divided by
  their number, in the arithmetic of doubles. Each is taken over all entries, not the
  ten-entry window of the chart and the history list, and only then turned into a text
  with one decimal by \<^verbatim>\<open>toFixed(1)\<close>. When every running sum is itself a double, the
  average shown is \<^verbatim>\<open>toFixed(1)\<close> of the double nearest to the exact mean.
\<close>

theorem statistics_over_all_entries:
  assumes "map entry_value (entries m) = map Num vs" and "vs \<noteq> []"
  shows "renderMetricDetail_statistics m =
      \<lparr>totalEntries = NumberText (Num (real (length vs))),
       highest = toFixed1 (Num (Max (set vs))),
       lowest = toFixed1 (Num (Min (set vs))),
       average = toFixed1 (js_div (foldl js_add (Num 0) (map Num vs)) (Num (real (length vs))))\<rparr>
     \<and> (list_all isDouble (partialSums 0 vs) \<longrightarrow>
          average (renderMetricDetail_statistics m)
            = toFixed1 (round64 (sum_list vs / real (length vs))))"
proof -
  have len: "length (entries m) = length vs"
    using assms(1) by (metis length_map)
  have pos: "length (entries m) > 0"
    using assms(2) len by simp
  have hi: "Math_max (map entry_value (entries m)) = Num (Max (set vs))"
    using assms by (simp add: Math_max_Num)
  have lo: "Math_min (map entry_value (entries m)) = Num (Min (set vs))"
    using assms by (simp add: Math_min_Num)
  have sum: "foldl (\<lambda>sum e. js_add sum (entry_value e)) (Num 0) (entries m)
      = foldl js_add (Num 0) (map Num vs)"
    by (simp only: reduce_as_foldl assms(1))
  have stats: "renderMetricDetail_statistics m =
      \<lparr>totalEntries = NumberText (Num (real (length vs))),
       highest = toFixed1 (Num (Max (set vs))),
       lowest = toFixed1 (Num (Min (set vs))),
       average = toFixed1 (js_div (foldl js_add (Num 0) (map Num vs)) (Num (real (length vs))))\<rparr>"
    unfolding renderMetricDetail_statistics_def
    by (simp only: hi lo sum len pos [unfolded len] if_True)
  have exact: "average (renderMetricDetail_statistics m)
      = toFixed1 (round64 (sum_list vs / real (length vs)))"
    if "list_all isDouble (partialSums 0 vs)"
  proof -
    have "foldl js_add (Num 0) (map Num vs) = Num (sum_list vs)"
      using foldl_js_add_exact [OF that] by simp
    moreover have "js_div (Num (sum_list vs)) (Num (real (length vs)))
        = round64 (sum_list vs / real (length vs))"
      using assms(2) by simp
    ultimately show ?thesis
      by (simp only: stats statistics.simps)
  qed
  from stats exact show ?thesis
    by blast
qed

theorem statistics_over_all_entries_witness:
  "renderMetricDetail_statistics (metricOfValues [70.0, 72.5, 68.0]) =
     \<lparr>totalEntries = NumberText (Num 3), highest = Text ''72.5'', lowest = Text ''68.0'',
      average = Text ''70.2''\<rparr>
   \<and> list_all isDouble (partialSums 0 [70.0, 72.5, 68.0])
   \<and> round64 (sum_list [70.0, 72.5, 68.0] / 3) = Num (4937540216466091 / 70368744177664)
   \<and> length (visibleEntries (metricOfValues [5, 5, 5, 5, 5, 5, 5, 5, 5, 5, 9, 1])) = 10
   \<and> renderMetricDetail_statistics (metricOfValues [5, 5, 5, 5, 5, 5, 5, 5, 5, 5, 9, 1]) =
     \<lparr>totalEntries = NumberText (Num 12), highest = Text ''9.0'', lowest = Text ''1.0'',
      average = Text ''5.0''\<rparr>
   \<and> average (renderMetricDetail_statistics
        (metricOfValues [3602879701896397 / 36028797018963968, 4])) = Text ''2.0''
   \<and> average (renderMetricDetail_statistics
        (metricOfValues [60, 8458323050155213 / 140737488355328])) = Text ''60.0''
   \<and> average (renderMetricDetail_statistics
        (metricOfValues [2 ^ 1024 - 2 ^ 971, 2 ^ 1024 - 2 ^ 971])) = Text ''Infinity''"
proof -
  note rd = round64_def roundMagnitude_def ulp_def roundHalfEven_def pow2_def expo.simps Let_def
  have a: "map entry_value (entries (metricOfValues vs)) = map Num vs" for vs
    by (simp add: metricOfValues_def)
  have ps: "list_all isDouble (partialSums 0 [70.0, 72.5, 68.0])"
    by (simp add: isDouble_def rd)
  have mean: "round64 (sum_list [70.0, 72.5, 68.0] / 3) = Num (4937540216466091 / 70368744177664)"
    by (simp add: rd)
  have s1: "foldl js_add (Num 0) (map Num [70.0, 72.5, 68.0]) = Num 210.5"
    by (simp add: rd)
  have d1: "round64 (421 / 6) = Num (4937540216466091 / 70368744177664)"
    by (simp add: rd)
  have t1: "toFixed1 (Num (4937540216466091 / 70368744177664)) = Text ''70.2''"
    by simp
  have w1: "renderMetricDetail_statistics (metricOfValues [70.0, 72.5, 68.0]) =
     \<lparr>totalEntries = NumberText (Num 3), highest = Text ''72.5'', lowest = Text ''68.0'',
      average = Text ''70.2''\<rparr>"
    using statistics_over_all_entries [OF a, of "[70.0, 72.5, 68.0]", THEN conjunct1]
    by (simp only: s1) (simp add: d1 t1)
  have s2: "foldl js_add (Num 0) (map Num [5, 5, 5, 5, 5, 5, 5, 5, 5, 5, 9, 1]) = Num 60"
    by (simp add: rd)
  have d2: "round64 5 = Num 5"
    by (simp add: rd)
  have w2: "renderMetricDetail_statistics (metricOfValues [5, 5, 5, 5, 5, 5, 5, 5, 5, 5, 9, 1]) =
     \<lparr>totalEntries = NumberText (Num 12), highest = Text ''9.0'', lowest = Text ''1.0'',
      average = Text ''5.0''\<rparr>"
    using statistics_over_all_entries [OF a, of "[5, 5, 5, 5, 5, 5, 5, 5, 5, 5, 9, 1]",
        THEN conjunct1]
    by (simp only: s2) (simp add: d2)
  have v: "length (visibleEntries (metricOfValues [5, 5, 5, 5, 5, 5, 5, 5, 5, 5, 9, 1])) = 10"
    by (simp add: visibleEntries_def metricOfValues_def)
  have s3: "foldl js_add (Num 0) (map Num [3602879701896397 / 36028797018963968, 4])
      = Num (2308094809027379 / 562949953421312)"
    by (simp add: rd)
  have d3: "round64 (2308094809027379 / 1125899906842624)
      = Num (2308094809027379 / 1125899906842624)"
    by (simp add: rd)
  have t3: "toFixed1 (Num (2308094809027379 / 1125899906842624)) = Text ''2.0''"
    by simp
  have w3: "average (renderMetricDetail_statistics
        (metricOfValues [3602879701896397 / 36028797018963968, 4])) = Text ''2.0''"
    using statistics_over_all_entries [OF a, of "[3602879701896397 / 36028797018963968, 4]",
        THEN conjunct1]
    by (simp only: s3) (simp add: d3 t3)
  have s4: "foldl js_add (Num 0) (map Num [60, 8458323050155213 / 140737488355328])
      = Num (4225643087868723 / 35184372088832)"
    by (simp add: rd)
  have d4: "round64 (4225643087868723 / 70368744177664)
      = Num (4225643087868723 / 70368744177664)"
    by (simp add: rd)
  have t4: "toFixed1 (Num (4225643087868723 / 70368744177664)) = Text ''60.0''"
    by simp
  have w4: "average (renderMetricDetail_statistics
        (metricOfValues [60, 8458323050155213 / 140737488355328])) = Text ''60.0''"
    using statistics_over_all_entries [OF a, of "[60, 8458323050155213 / 140737488355328]",
        THEN conjunct1]
    by (simp only: s4) (simp add: d4 t4)
  define M :: real where "M = 2 ^ 1024 - 2 ^ 971"
  have "isDouble M"
    unfolding M_def by (rule MAX_double)
  then have r5: "round64 M = Num M"
    by (simp add: isDouble_def)
  have "2 ^ 1024 \<le> \<bar>2 * M\<bar>" and "\<not> 2 * M < 0"
    by (simp_all add: M_def)
  then have o5: "round64 (2 * M) = Infinity"
    by (simp add: round64_overflow)
  have s5: "foldl js_add (Num 0) (map Num [M, M]) = Infinity"
    by (simp add: r5 o5)
  have "average (renderMetricDetail_statistics (metricOfValues [M, M])) = Text ''Infinity''"
    using statistics_over_all_entries [OF a, of "[M, M]", THEN conjunct1]
    by (simp only: s5) simp
  then have w5: "average (renderMetricDetail_statistics
        (metricOfValues [2 ^ 1024 - 2 ^ 971, 2 ^ 1024 - 2 ^ 971])) = Text ''Infinity''"
    by (simp only: M_def)
  from w1 ps mean v w2 w3 w4 w5 show ?thesis
    by (simp only: simp_thms)
qed

text \<open>
  C4. For a metric without entries the Statistics card shows the placeholder \<^verbatim>\<open>--\<close>
  for the highest value, the lowest value and the average; none of them is shown as 0.
  The number of entries is the one statistic shown as a number there, \<^verbatim>\<open>0\<close>.
\<close>

theorem statistics_absent_when_empty:
  assumes "entries m = []"
  shows "highest (renderMetricDetail_statistics m) = Text ''--''
     \<and> lowest (renderMetricDetail_statistics m) = Text ''--''
     \<and> average (renderMetricDetail_statistics m) = Text ''--''
     \<and> totalEntries (renderMetricDetail_statistics m) = NumberText (Num 0)"
  using assms by (simp add: renderMetricDetail_statistics_def)

theorem statistics_absent_when_empty_witness:
  "entries (metricOfValues []) = []
   \<and> highest (renderMetricDetail_statistics (metricOfValues [])) = Text ''--''
   \<and> lowest (renderMetricDetail_statistics (metricOfValues [])) = Text ''--''
   \<and> average (renderMetricDetail_statistics (metricOfValues [])) = Text ''--''"
proof -
  have h: "entries (metricOfValues []) = []"
    by (simp add: metricOfValues_def)
  from statistics_absent_when_empty [OF h] h show ?thesis
    by simp
qed


section \<open>Properties of saving an entry\<close>

text \<open>
  C10. The save handler calls \<^verbatim>\<open>addMetricEntry(k, v)\<close> exactly when a metric \<open>k\<close> is
  selected (\<open>selectedMetric\<close> is a non-empty string), the trimmed input is not empty,
  and \<open>v = parseFloat(s)\<close> is not NaN. So NaN is never passed on; nothing else is asked
  of \<open>v\<close>, so an input that parses to an infinity, or that only starts with a number,
  is passed on.
\<close>

theorem handleSaveEntry_calls_iff:
  "(handleSaveEntry selectedMetric s = Call_addMetricEntry k v \<longleftrightarrow>
      selectedMetric = Some k \<and> k \<noteq> [] \<and> trim s \<noteq> [] \<and> v = parseFloat s \<and> \<not> isNaN v)
   \<and> handleSaveEntry selectedMetric s \<noteq> Call_addMetricEntry k NaN"
  by (auto simp: handleSaveEntry_def Let_def split: option.splits)

theorem handleSaveEntry_calls_iff_witness:
  "handleSaveEntry (Some ''weight'') (ascii ''Infinity'') = Call_addMetricEntry ''weight'' Infinity
   \<and> handleSaveEntry (Some ''weight'') (ascii ''12abc'') = Call_addMetricEntry ''weight'' (Num 12)
   \<and> handleSaveEntry (Some ''weight'') (ascii ''abc'') \<noteq> Call_addMetricEntry ''weight'' NaN
   \<and> handleSaveEntry None (ascii ''12'') \<noteq> Call_addMetricEntry ''weight'' (Num 12)
   \<and> handleSaveEntry (Some ''weight'') (ascii ''1e400'') = Call_addMetricEntry ''weight'' Infinity
   \<and> handleSaveEntry (Some ''weight'') (ascii ''1e-400'') = Call_addMetricEntry ''weight'' (Num 0)"
proof -
  note ev = parseFloat_def unsignedLiteral_def exponentPart_def scale10_def digitsValue_def
    isDigit_def isWhiteSpace_def ascii_def Let_def trim_def round64_def roundMagnitude_def
    ulp_def roundHalfEven_def pow2_def expo.simps
  have "handleSaveEntry (Some ''weight'') (ascii ''Infinity'')
      = Call_addMetricEntry ''weight'' Infinity"
    using handleSaveEntry_calls_iff [of "Some ''weight''" "ascii ''Infinity''" "''weight''" Infinity]
    by (simp add: ev)
  moreover have "handleSaveEntry (Some ''weight'') (ascii ''12abc'')
      = Call_addMetricEntry ''weight'' (Num 12)"
    using handleSaveEntry_calls_iff [of "Some ''weight''" "ascii ''12abc''" "''weight''" "Num 12"]
    by (simp add: ev)
  moreover have "handleSaveEntry (Some ''weight'') (ascii ''abc'')
      \<noteq> Call_addMetricEntry ''weight'' NaN"
    using handleSaveEntry_calls_iff [of "Some ''weight''" "ascii ''abc''" "''weight''"]
    by simp
  moreover have "handleSaveEntry None (ascii ''12'') \<noteq> Call_addMetricEntry ''weight'' (Num 12)"
    using handleSaveEntry_calls_iff [of None "ascii ''12''" "''weight''" "Num 12"]
    by simp
  moreover have "handleSaveEntry (Some ''weight'') (ascii ''1e400'')
      = Call_addMetricEntry ''weight'' Infinity"
  proof -
    have "parseFloat (ascii ''1e400'') = Infinity"
      by (simp add: parseFloat_def unsignedLiteral_def exponentPart_def scale10_def
          digitsValue_def isDigit_def isWhiteSpace_def ascii_def Let_def round64_overflow)
    moreover have "trim (ascii ''1e400'') \<noteq> []"
      by (simp add: trim_def isWhiteSpace_def ascii_def)
    ultimately show ?thesis
      using handleSaveEntry_calls_iff [of "Some ''weight''" "ascii ''1e400''" "''weight''" Infinity]
      by simp
  qed
  moreover have "handleSaveEntry (Some ''weight'') (ascii ''1e-400'')
      = Call_addMetricEntry ''weight'' (Num 0)"
  proof -
    have "parseFloat (ascii ''1e-400'') = Num 0"
      by (simp add: parseFloat_def unsignedLiteral_def exponentPart_def scale10_def
          digitsValue_def isDigit_def isWhiteSpace_def ascii_def Let_def round64_underflow
          pow2_def)
    moreover have "trim (ascii ''1e-400'') \<noteq> []"
      by (simp add: trim_def isWhiteSpace_def ascii_def)
    ultimately show ?thesis
      using handleSaveEntry_calls_iff [of "Some ''weight''" "ascii ''1e-400''" "''weight''" "Num 0"]
      by simp
  qed
  ultimately show ?thesis by (simp only: simp_thms)
qed


section \<open>Properties of the metric store\<close>

lemma findConfig_None_iff: "findConfig k = None \<longleftrightarrow> k \<notin> set (map key metricConfigs)"
  by (auto simp: findConfig_def find_None_iff)

lemma appendEntry_accepted:
  assumes "loadAll st = Inr md" and "accepted c"
  shows "snd (appendEntry (call_moment c) (call_writable c) (call_key c) (call_value c) st) =
    Document (AList.update (call_key c)
      (prepend (entryOf c) (moment_stamp (call_moment c)) (entriesOf md (call_key c))) md)"
  using assms
  by (auto simp: appendEntry_def accepted_def entryOf_def Let_def split: option.splits)

lemma appendEntry_not_accepted:
  assumes "\<not> accepted c"
  shows "snd (appendEntry (call_moment c) (call_writable c) (call_key c) (call_value c) st) = st"
  using assms
  by (auto simp: appendEntry_def accepted_def Let_def split: option.splits sum.splits)

lemma entriesOf_update:
  "entriesOf (AList.update k' m md) k = (if k = k' then entries m else entriesOf md k)"
  by (simp add: entriesOf_def update_conv')

lemma appendAll_entries:
  assumes "loadAll st = Inr md"
  shows "\<exists>md'. loadAll (appendAll cs st) = Inr md'
     \<and> map_of md' k =
        (if acceptedFor k cs = [] then map_of md k
         else Some \<lparr>entries = rev (map entryOf (acceptedFor k cs)) @ entriesOf md k,
                    currentValue = Some (call_value (last (acceptedFor k cs))),
                    lastUpdated = moment_stamp (call_moment (last (acceptedFor k cs)))\<rparr>)"
  using assms
proof (induction cs arbitrary: st md)
  case Nil
  then show ?case by (simp add: acceptedFor_def)
next
  case (Cons c cs)
  let ?st1 = "snd (appendEntry (call_moment c) (call_writable c) (call_key c) (call_value c) st)"
  show ?case
  proof (cases "accepted c")
    case False
    then have st1: "?st1 = st"
      by (rule appendEntry_not_accepted)
    have acc: "acceptedFor k (c # cs) = acceptedFor k cs"
      using False by (simp add: acceptedFor_def)
    have step: "appendAll (c # cs) st = appendAll cs st"
      by (simp add: st1)
    from Cons.IH [OF Cons.prems] show ?thesis
      unfolding step acc .
  next
    case True
    let ?m1 = "prepend (entryOf c) (moment_stamp (call_moment c)) (entriesOf md (call_key c))"
    let ?md1 = "AList.update (call_key c) ?m1 md"
    have st1: "?st1 = Document ?md1"
      using Cons.prems True by (rule appendEntry_accepted)
    have load1: "loadAll (Document ?md1) = Inr ?md1"
      by (simp add: loadAll_def)
    from Cons.IH [OF load1] obtain md' where
      md': "loadAll (appendAll cs (Document ?md1)) = Inr md'" and
      look: "map_of md' k =
        (if acceptedFor k cs = [] then map_of ?md1 k
         else Some \<lparr>entries = rev (map entryOf (acceptedFor k cs)) @ entriesOf ?md1 k,
                    currentValue = Some (call_value (last (acceptedFor k cs))),
                    lastUpdated = moment_stamp (call_moment (last (acceptedFor k cs)))\<rparr>)"
      by blast
    have ev: "entry_value (entryOf c) = call_value c"
      by (simp add: entryOf_def newEntry_def)
    have step: "appendAll (c # cs) st = appendAll cs (Document ?md1)"
      by (simp add: st1)
    have "map_of md' k =
        (if acceptedFor k (c # cs) = [] then map_of md k
         else Some \<lparr>entries = rev (map entryOf (acceptedFor k (c # cs))) @ entriesOf md k,
                    currentValue = Some (call_value (last (acceptedFor k (c # cs)))),
                    lastUpdated = moment_stamp (call_moment (last (acceptedFor k (c # cs))))\<rparr>)"
    proof (cases "call_key c = k")
      case False
      then have "acceptedFor k (c # cs) = acceptedFor k cs"
        by (simp add: acceptedFor_def)
      moreover from False have "map_of ?md1 k = map_of md k" "entriesOf ?md1 k = entriesOf md k"
        by (auto simp: update_conv' entriesOf_update)
      ultimately show ?thesis
        using look by simp
    next
      case same: True
      then have acc: "acceptedFor k (c # cs) = c # acceptedFor k cs"
        using True by (simp add: acceptedFor_def)
      show ?thesis
        using look same by (simp add: acc update_conv' entriesOf_update prepend_def ev)
    qed
    with md' show ?thesis
      unfolding step by blast
  qed
qed

text \<open>
  C1. Run any sequence of \<^verbatim>\<open>appendEntry\<close> calls on a readable store. For every key \<open>k\<close>
  with at least one accepted call, the store then holds a metric for \<open>k\<close> whose entries
  are the entries of the calls accepted for \<open>k\<close>, the last call first, in front of the
  entries \<open>k\<close> had before; \<open>entries[0]\<close> is the entry appended last, and \<open>currentValue\<close>
  is its value. If \<open>k\<close> had no entries before, the metric has as many entries as there
  were accepted calls, \<open>n\<close>, and \<open>entries[n-1]\<close> is the entry appended first. Also, the
  snapshot returned by one successful \<^verbatim>\<open>appendEntry(k, v)\<close> holds, like the store, a
  metric for \<open>k\<close> whose \<open>entries[0]\<close> carries \<open>v\<close> and whose \<open>currentValue\<close> is \<open>v\<close>.
\<close>

theorem appendEntry_newest_first:
  "(loadAll st = Inr md \<and> acceptedFor k cs \<noteq> [] \<longrightarrow>
      (\<exists>m. loadOne (appendAll cs st) k = Inr (Some m)
         \<and> entries m = rev (map entryOf (acceptedFor k cs)) @ entriesOf md k
         \<and> entries m ! 0 = entryOf (last (acceptedFor k cs))
         \<and> currentValue m = Some (entry_value (entries m ! 0))
         \<and> (entriesOf md k = [] \<longrightarrow>
              length (entries m) = length (acceptedFor k cs)
              \<and> entries m ! (length (acceptedFor k cs) - 1) = entryOf (hd (acceptedFor k cs)))))
   \<and> (appendEntry now w k v st = (Inr md', st') \<longrightarrow>
      (\<exists>m'. map_of md' k = Some m' \<and> loadOne st' k = Inr (Some m')
         \<and> entries m' \<noteq> [] \<and> entry_value (entries m' ! 0) = v \<and> currentValue m' = Some v))"
proof (intro conjI impI)
  assume a: "appendEntry now w k v st = (Inr md', st')"
  then show "\<exists>m'. map_of md' k = Some m' \<and> loadOne st' k = Inr (Some m')
         \<and> entries m' \<noteq> [] \<and> entry_value (entries m' ! 0) = v \<and> currentValue m' = Some v"
    by (auto simp: appendEntry_def Let_def loadOne_def loadAll_def update_conv' prepend_def
        newEntry_def split: option.splits sum.splits if_splits)
next
  let ?acc = "acceptedFor k cs"
  let ?m = "\<lparr>entries = rev (map entryOf ?acc) @ entriesOf md k,
             currentValue = Some (call_value (last ?acc)),
             lastUpdated = moment_stamp (call_moment (last ?acc))\<rparr>"
  assume "loadAll st = Inr md \<and> ?acc \<noteq> []"
  then have rd: "loadAll st = Inr md" and ne: "?acc \<noteq> []"
    by simp_all
  from appendAll_entries [OF rd, of cs k] ne obtain md' where
    md': "loadAll (appendAll cs st) = Inr md'" and look: "map_of md' k = Some ?m"
    by auto
  have stored: "loadOne (appendAll cs st) k = Inr (Some ?m)"
    by (simp add: loadOne_def md' look)
  have ev: "entry_value (entryOf c) = call_value c" for c
    by (simp add: entryOf_def newEntry_def)
  have first: "entries ?m ! 0 = entryOf (last ?acc)"
    using ne by (simp add: nth_append rev_map [symmetric] hd_conv_nth [symmetric] hd_rev last_map)
  have cur: "currentValue ?m = Some (entry_value (entries ?m ! 0))"
    by (simp only: first ev) simp
  have empty: "length (entries ?m) = length ?acc
      \<and> entries ?m ! (length ?acc - 1) = entryOf (hd ?acc)" if "entriesOf md k = []"
    using ne that by (simp add: rev_nth hd_conv_nth)
  show "\<exists>m. loadOne (appendAll cs st) k = Inr (Some m)
         \<and> entries m = rev (map entryOf ?acc) @ entriesOf md k
         \<and> entries m ! 0 = entryOf (last ?acc)
         \<and> currentValue m = Some (entry_value (entries m ! 0))
         \<and> (entriesOf md k = [] \<longrightarrow>
              length (entries m) = length ?acc
              \<and> entries m ! (length ?acc - 1) = entryOf (hd ?acc))"
  proof (intro exI [of _ ?m] conjI impI)
    show "loadOne (appendAll cs st) k = Inr (Some ?m)"
      by (rule stored)
    show "entries ?m = rev (map entryOf ?acc) @ entriesOf md k"
      by simp
    show "entries ?m ! 0 = entryOf (last ?acc)"
      by (rule first)
    show "currentValue ?m = Some (entry_value (entries ?m ! 0))"
      by (rule cur)
    show "length (entries ?m) = length ?acc" if "entriesOf md k = []"
      using empty [OF that] by (rule conjunct1)
    show "entries ?m ! (length ?acc - 1) = entryOf (hd ?acc)" if "entriesOf md k = []"
      using empty [OF that] by (rule conjunct2)
  qed
qed

theorem appendEntry_newest_first_witness:
  "loadAll NoDocument = Inr []
   \<and> acceptedFor ''weight''
        [callAt ''weight'' (Num 70) ''09:00'', callAt ''waist'' (Num 32) ''09:05'',
         callAt ''weight'' NaN ''09:06'', callAt ''height'' (Num 180) ''09:07'',
         callAt ''weight'' (Num 71) ''09:10'']
     = [callAt ''weight'' (Num 70) ''09:00'', callAt ''weight'' (Num 71) ''09:10'']
   \<and> loadOne (appendAll [callAt ''weight'' (Num 70) ''09:00'', callAt ''waist'' (Num 32) ''09:05'',
                        callAt ''weight'' NaN ''09:06'', callAt ''height'' (Num 180) ''09:07'',
                        callAt ''weight'' (Num 71) ''09:10''] NoDocument) ''weight''
     = Inr (Some \<lparr>entries = [newEntry ''kg'' (momentAt ''09:10'') (Num 71),
                               newEntry ''kg'' (momentAt ''09:00'') (Num 70)],
                    currentValue = Some (Num 71), lastUpdated = ''1/1/2025 09:10''\<rparr>)
   \<and> (\<exists>m'. loadOne (snd (appendEntry (momentAt ''09:00'') True ''weight'' (Num 70) NoDocument))
               ''weight'' = Inr (Some m')
          \<and> currentValue m' = Some (Num 70))"
proof -
  let ?c1 = "callAt ''weight'' (Num 70) ''09:00''"
  let ?c5 = "callAt ''weight'' (Num 71) ''09:10''"
  let ?cs = "[?c1, callAt ''waist'' (Num 32) ''09:05'', callAt ''weight'' NaN ''09:06'',
              callAt ''height'' (Num 180) ''09:07'', ?c5]"
  let ?m = "\<lparr>entries = [newEntry ''kg'' (momentAt ''09:10'') (Num 71),
                         newEntry ''kg'' (momentAt ''09:00'') (Num 70)],
              currentValue = Some (Num 71), lastUpdated = ''1/1/2025 09:10''\<rparr>"
  note cat = findConfig_def metricConfigs_def
  have h1: "loadAll NoDocument = Inr []"
    by (simp add: loadAll_def)
  have acc: "acceptedFor ''weight'' ?cs = [?c1, ?c5]"
    by (simp add: acceptedFor_def accepted_def callAt_def cat)
  have e1: "entryOf ?c1 = newEntry ''kg'' (momentAt ''09:00'') (Num 70)"
    and e5: "entryOf ?c5 = newEntry ''kg'' (momentAt ''09:10'') (Num 71)"
    by (simp_all add: entryOf_def callAt_def cat)
  have h: "loadAll NoDocument = Inr [] \<and> acceptedFor ''weight'' ?cs \<noteq> []"
    by (simp only: h1 acc) simp
  from appendEntry_newest_first [of NoDocument "[]" "''weight''" ?cs, THEN conjunct1,
      rule_format, OF h]
  obtain m where m: "loadOne (appendAll ?cs NoDocument) ''weight'' = Inr (Some m)"
    and es: "entries m = rev (map entryOf (acceptedFor ''weight'' ?cs)) @ entriesOf [] ''weight''"
    and cv: "currentValue m = Some (entry_value (entries m ! 0))"
    by blast
  have lu: "lastUpdated m = ''1/1/2025 09:10''"
    using m by (auto simp: appendEntry_def cat callAt_def momentAt_def loadAll_def loadOne_def
        entriesOf_def prepend_def Let_def)
  have es': "entries m = [newEntry ''kg'' (momentAt ''09:10'') (Num 71),
                          newEntry ''kg'' (momentAt ''09:00'') (Num 70)]"
    by (simp only: es acc) (simp add: e1 e5 entriesOf_def)
  have "m = ?m"
    using cv lu by (simp add: es' newEntry_def)
  with m have stored: "loadOne (appendAll ?cs NoDocument) ''weight'' = Inr (Some ?m)"
    by simp
  have a: "appendEntry (momentAt ''09:00'') True ''weight'' (Num 70) NoDocument =
      (Inr [(''weight'', prepend (newEntry ''kg'' (momentAt ''09:00'') (Num 70)) ''1/1/2025 09:00'' [])],
       Document [(''weight'',
          prepend (newEntry ''kg'' (momentAt ''09:00'') (Num 70)) ''1/1/2025 09:00'' [])])"
    by (simp add: appendEntry_def cat momentAt_def loadAll_def entriesOf_def Let_def)
  from appendEntry_newest_first [of NoDocument "[]" "''weight''" ?cs "momentAt ''09:00''" True
      "Num 70", THEN conjunct2, rule_format, OF a]
  have s: "\<exists>m'. loadOne (snd (appendEntry (momentAt ''09:00'') True ''weight'' (Num 70) NoDocument))
               ''weight'' = Inr (Some m')
          \<and> currentValue m' = Some (Num 70)"
    by (auto simp only: a snd_conv)
  from h1 acc stored s show ?thesis
    by simp
qed

text \<open>
  C5. \<^verbatim>\<open>appendEntry\<close> fails with \<^verbatim>\<open>ValidationError\<close> for every key that is not in the
  catalog, and with \<^verbatim>\<open>InvalidValueError\<close> for every value that is not finite (NaN
  included) under a key of the catalog; the key is looked at first, so a call wrong in
  both ways reports the key. Whenever the call fails, for these or any other reason,
  the persisted state is the one before the call; whenever it succeeds, the persisted
  state is the document of the snapshot it returns.
\<close>

theorem appendEntry_fails_unchanged:
  "(k \<notin> set (map key metricConfigs) \<longrightarrow> appendEntry now w k v st = (Inl ValidationError, st))
   \<and> (k \<in> set (map key metricConfigs) \<and> \<not> isFinite v \<longrightarrow>
        appendEntry now w k v st = (Inl InvalidValueError, st))
   \<and> (\<forall>e. fst (appendEntry now w k v st) = Inl e \<longrightarrow> snd (appendEntry now w k v st) = st)
   \<and> (\<forall>md'. fst (appendEntry now w k v st) = Inr md' \<longrightarrow>
        snd (appendEntry now w k v st) = Document md')"
proof (intro conjI impI allI)
  assume "k \<notin> set (map key metricConfigs)"
  then have "findConfig k = None"
    by (simp add: findConfig_None_iff)
  then show "appendEntry now w k v st = (Inl ValidationError, st)"
    by (simp add: appendEntry_def)
next
  assume "k \<in> set (map key metricConfigs) \<and> \<not> isFinite v"
  then have "findConfig k \<noteq> None" and "\<not> isFinite v"
    by (simp_all add: findConfig_None_iff)
  then show "appendEntry now w k v st = (Inl InvalidValueError, st)"
    by (auto simp: appendEntry_def)
next
  fix e
  assume "fst (appendEntry now w k v st) = Inl e"
  then show "snd (appendEntry now w k v st) = st"
    by (auto simp: appendEntry_def Let_def split: option.splits sum.splits if_splits)
next
  fix md'
  assume "fst (appendEntry now w k v st) = Inr md'"
  then show "snd (appendEntry now w k v st) = Document md'"
    by (auto simp: appendEntry_def Let_def split: option.splits sum.splits if_splits)
qed

theorem appendEntry_fails_unchanged_witness:
  "appendEntry (momentAt ''09:00'') True ''height'' (Num 180)
       (Document [(''weight'', metricOfValues [70])])
     = (Inl ValidationError, Document [(''weight'', metricOfValues [70])])
   \<and> appendEntry (momentAt ''09:00'') True ''weight'' NaN
       (Document [(''weight'', metricOfValues [70])])
     = (Inl InvalidValueError, Document [(''weight'', metricOfValues [70])])
   \<and> appendEntry (momentAt ''09:00'') True ''weight'' Infinity
       (Document [(''weight'', metricOfValues [70])])
     = (Inl InvalidValueError, Document [(''weight'', metricOfValues [70])])
   \<and> snd (appendEntry (momentAt ''09:00'') False ''weight'' (Num 71)
       (Document [(''weight'', metricOfValues [70])]))
     = Document [(''weight'', metricOfValues [70])]
   \<and> snd (appendEntry (momentAt ''09:00'') True ''weight'' (Num 71) NoDocument)
     = Document [(''weight'',
         prepend (newEntry ''kg'' (momentAt ''09:00'') (Num 71)) ''1/1/2025 09:00'' [])]"
proof -
  let ?now = "momentAt ''09:00''"
  let ?st = "Document [(''weight'', metricOfValues [70])]"
  let ?md1 = "[(''weight'', prepend (newEntry ''kg'' ?now (Num 71)) ''1/1/2025 09:00'' [])]"
  note ev = appendEntry_def findConfig_def metricConfigs_def momentAt_def
    loadAll_def entriesOf_def Let_def
  have "appendEntry ?now True ''height'' (Num 180) ?st = (Inl ValidationError, ?st)"
    using appendEntry_fails_unchanged [of "''height''" ?now True "Num 180" ?st]
    by (simp add: metricConfigs_def)
  moreover have "appendEntry ?now True ''weight'' NaN ?st = (Inl InvalidValueError, ?st)"
    using appendEntry_fails_unchanged [of "''weight''" ?now True NaN ?st]
    by (simp add: metricConfigs_def)
  moreover have "appendEntry ?now True ''weight'' Infinity ?st = (Inl InvalidValueError, ?st)"
    using appendEntry_fails_unchanged [of "''weight''" ?now True Infinity ?st]
    by (simp add: metricConfigs_def)
  moreover have "snd (appendEntry ?now False ''weight'' (Num 71) ?st) = ?st"
  proof -
    have "fst (appendEntry ?now False ''weight'' (Num 71) ?st) = Inl StorageWriteError"
      by (simp add: ev)
    with appendEntry_fails_unchanged [of "''weight''" ?now False "Num 71" ?st]
    show ?thesis by blast
  qed
  moreover have "snd (appendEntry ?now True ''weight'' (Num 71) NoDocument) = Document ?md1"
  proof -
    have "fst (appendEntry ?now True ''weight'' (Num 71) NoDocument) = Inr ?md1"
      by (simp add: ev)
    with appendEntry_fails_unchanged [of "''weight''" ?now True "Num 71" NoDocument]
    show ?thesis by blast
  qed
  ultimately show ?thesis by simp
qed

text \<open>
  C6. When \<^verbatim>\<open>appendEntry(a, v)\<close> succeeds, every other key \<open>b\<close> has in the returned
  snapshot, and in the persisted state, exactly the metric it had before the call
  (absent if it was absent), so its entries are the same sequence; the entries of \<open>a\<close>
  are the old ones with the new entry in front.
\<close>

theorem appendEntry_other_keys_unchanged:
  assumes "appendEntry now w a v st = (Inr md', st')" and "b \<noteq> a"
  shows "loadOne st b = Inr (map_of md' b)
     \<and> loadOne st' b = loadOne st b
     \<and> (\<exists>md c. loadAll st = Inr md \<and> findConfig a = Some c
           \<and> entriesOf md' b = entriesOf md b
           \<and> entriesOf md' a = newEntry (unit c) now v # entriesOf md a)"
proof -
  from assms(1) obtain c md where c: "findConfig a = Some c" and md: "loadAll st = Inr md"
    and md': "md' = AList.update a
        (prepend (newEntry (unit c) now v) (moment_stamp now) (entriesOf md a)) md"
    and st': "st' = Document md'"
    by (auto simp: appendEntry_def Let_def split: option.splits sum.splits if_splits)
  from assms(2) have frame: "map_of md' b = map_of md b"
    by (simp add: md' update_conv')
  have "loadOne st b = Inr (map_of md' b)"
    by (simp add: loadOne_def md frame)
  moreover have "loadOne st' b = loadOne st b"
  proof -
    have "loadAll st' = Inr md'"
      by (simp add: st' loadAll_def)
    then show ?thesis
      by (simp add: loadOne_def md frame)
  qed
  moreover have "entriesOf md' b = entriesOf md b"
    by (simp add: entriesOf_def frame)
  moreover have "entriesOf md' a = newEntry (unit c) now v # entriesOf md a"
    by (simp add: md' entriesOf_update prepend_def)
  ultimately show ?thesis
    using c md by blast
qed

theorem appendEntry_other_keys_unchanged_witness:
  "appendEntry (momentAt ''09:00'') True ''weight'' (Num 71)
       (Document [(''weight'', metricOfValues [70]), (''waist'', metricOfValues [32, 33])])
     = (Inr [(''weight'', prepend (newEntry ''kg'' (momentAt ''09:00'') (Num 71)) ''1/1/2025 09:00''
                            (entries (metricOfValues [70]))),
             (''waist'', metricOfValues [32, 33])],
        Document [(''weight'', prepend (newEntry ''kg'' (momentAt ''09:00'') (Num 71))
                                 ''1/1/2025 09:00'' (entries (metricOfValues [70]))),
                  (''waist'', metricOfValues [32, 33])])
   \<and> ''waist'' \<noteq> ''weight''
   \<and> loadOne (Document [(''weight'', metricOfValues [70]), (''waist'', metricOfValues [32, 33])])
        ''waist'' = Inr (Some (metricOfValues [32, 33]))
   \<and> loadOne (Document [(''weight'', prepend (newEntry ''kg'' (momentAt ''09:00'') (Num 71))
                                 ''1/1/2025 09:00'' (entries (metricOfValues [70]))),
                  (''waist'', metricOfValues [32, 33])]) ''waist''
       = Inr (Some (metricOfValues [32, 33]))"
proof -
  let ?now = "momentAt ''09:00''"
  let ?st = "Document [(''weight'', metricOfValues [70]), (''waist'', metricOfValues [32, 33])]"
  let ?md1 = "[(''weight'', prepend (newEntry ''kg'' ?now (Num 71)) ''1/1/2025 09:00''
                            (entries (metricOfValues [70]))),
               (''waist'', metricOfValues [32, 33])]"
  note ev = appendEntry_def findConfig_def metricConfigs_def momentAt_def
    loadAll_def entriesOf_def Let_def
  have h1: "appendEntry ?now True ''weight'' (Num 71) ?st = (Inr ?md1, Document ?md1)"
    by (simp add: ev)
  have h2: "''waist'' \<noteq> ''weight''"
    by simp
  have before: "loadOne ?st ''waist'' = Inr (Some (metricOfValues [32, 33]))"
    by (simp add: loadOne_def loadAll_def)
  from appendEntry_other_keys_unchanged [OF h1 h2]
  have "loadOne (Document ?md1) ''waist'' = loadOne ?st ''waist''"
    by blast
  with before have "loadOne (Document ?md1) ''waist'' = Inr (Some (metricOfValues [32, 33]))"
    by simp
  with h1 h2 before show ?thesis
    by simp
qed

end
